theory Spec2Isabelle
  imports Complex_Main "HOL-Library.Multiset"
begin

section \<open>Host-language primitives\<close>

text \<open>
  The engine lives in \<^verbatim>\<open>src/app/api/headlines/route.ts\<close>. Strings are lists of
  code units; the model covers code units below 256, so \<open>length\<close> is the source's
  \<^verbatim>\<open>.length\<close>. Numbers are exact rationals: every quotient, product and comparison
  of the source is taken without rounding. An insertion-ordered \<^verbatim>\<open>Set<string>\<close> is a
  list that \<open>setAdd\<close> extends at the end when the element is new.
\<close>

definition isWhiteSpace :: "char \<Rightarrow> bool" where
  \<comment> \<open>the class \<^verbatim>\<open>\s\<close>, which is also what \<^verbatim>\<open>trim()\<close> removes\<close>
  "isWhiteSpace c = ((of_char c :: nat) \<in> {9, 10, 11, 12, 13, 32, 160})"

definition isLowerAlnum :: "char \<Rightarrow> bool" where
  \<comment> \<open>the class \<^verbatim>\<open>[a-z0-9]\<close>\<close>
  "isLowerAlnum c =
     (let n = (of_char c :: nat) in (97 \<le> n \<and> n \<le> 122) \<or> (48 \<le> n \<and> n \<le> 57))"

definition isUpper :: "char \<Rightarrow> bool" where
  "isUpper c =
     (let n = (of_char c :: nat)
      in (65 \<le> n \<and> n \<le> 90) \<or> (192 \<le> n \<and> n \<le> 214) \<or> (216 \<le> n \<and> n \<le> 222))"

definition lowerChar :: "char \<Rightarrow> char" where
  \<comment> \<open>an upper-case code unit has bit 32 clear; setting it adds 32\<close>
  "lowerChar c =
     (if isUpper c
      then (case c of Char b0 b1 b2 b3 b4 b5 b6 b7 \<Rightarrow> Char b0 b1 b2 b3 b4 True b6 b7)
      else c)"

definition toLowerCase :: "string \<Rightarrow> string" where
  "toLowerCase s = map lowerChar s"

definition trim :: "string \<Rightarrow> string" where
  "trim s = rev (dropWhile isWhiteSpace (rev (dropWhile isWhiteSpace s)))"

definition stripTrailingSlashes :: "string \<Rightarrow> string" where
  \<comment> \<open>\<^verbatim>\<open>.replace(/\/+$/g, '')\<close>\<close>
  "stripTrailingSlashes s = rev (dropWhile (\<lambda>c. c = CHR ''/'') (rev s))"

fun replaceRuns :: "(char \<Rightarrow> bool) \<Rightarrow> bool \<Rightarrow> string \<Rightarrow> string" where
  \<comment> \<open>\<^verbatim>\<open>.replace(/[class]+/g, ' ')\<close>: every maximal run of the class becomes one space;
      the flag says that the scan is inside a run\<close>
  "replaceRuns p inRun [] = []"
| "replaceRuns p inRun (c # cs) =
     (if p c then (if inRun then replaceRuns p True cs else CHR '' '' # replaceRuns p True cs)
      else c # replaceRuns p False cs)"

definition endsWith :: "string \<Rightarrow> string \<Rightarrow> bool" where
  "endsWith s suf = (length suf \<le> length s \<and> drop (length s - length suf) s = suf)"

definition sliceEnd :: "string \<Rightarrow> nat \<Rightarrow> string" where
  \<comment> \<open>\<^verbatim>\<open>s.slice(0, -n)\<close> for \<open>n > 0\<close>\<close>
  "sliceEnd s n = take (length s - n) s"

definition setAdd :: "string list \<Rightarrow> string \<Rightarrow> string list" where
  "setAdd xs x = (if x \<in> set xs then xs else xs @ [x])"

record UrlParts =
  protocol :: string
  hostname :: string
  pathname :: string

text \<open>
  Two services of the platform are parameters of the model: \<^verbatim>\<open>new URL(url)\<close>, which
  yields the parts of a parsed URL or throws (\<open>None\<close>), and \<^verbatim>\<open>Date.parse\<close>, which yields
  milliseconds since the epoch or \<^verbatim>\<open>NaN\<close> (\<open>None\<close>).
\<close>

record Platform =
  URL_parse :: "string \<Rightarrow> UrlParts option"
  Date_parse :: "string \<Rightarrow> int option"

section \<open>URL normalizer and text normalizer\<close>

definition normalizeUrlForComparison :: "Platform \<Rightarrow> string \<Rightarrow> string" where
  "normalizeUrlForComparison plat u =
     (if u = [] then []
      else case URL_parse plat u of
        Some parsed \<Rightarrow>
          (let normalizedPath = stripTrailingSlashes (pathname parsed)
           in toLowerCase
                (stripTrailingSlashes (protocol parsed @ ''//'' @ hostname parsed @ normalizedPath)))
      | None \<Rightarrow> toLowerCase (stripTrailingSlashes (trim u)))"

definition normalizeHeadlineText :: "string \<Rightarrow> string" where
  "normalizeHeadlineText text =
     trim (replaceRuns (\<lambda>c. \<not> isLowerAlnum c) False (toLowerCase text))"

section \<open>Token builder\<close>

datatype DedupeMode = ModeDefault | ModeStrict

definition MAX_TOKEN_COUNT :: nat where "MAX_TOKEN_COUNT = 64"
definition TOKEN_MIN_LENGTH_DEFAULT :: nat where "TOKEN_MIN_LENGTH_DEFAULT = 3"
definition TOKEN_MIN_LENGTH_STRICT :: nat where "TOKEN_MIN_LENGTH_STRICT = 2"
definition TOKEN_OVERLAP_THRESHOLD_DEFAULT :: rat where "TOKEN_OVERLAP_THRESHOLD_DEFAULT = 7 / 10"
definition TOKEN_OVERLAP_THRESHOLD_STRICT :: rat where "TOKEN_OVERLAP_THRESHOLD_STRICT = 55 / 100"
definition STRICT_TITLE_SIMILARITY_THRESHOLD :: rat where
  "STRICT_TITLE_SIMILARITY_THRESHOLD = 88 / 100"

definition getTokenMinLength :: "DedupeMode \<Rightarrow> nat" where
  "getTokenMinLength m =
     (if m = ModeStrict then TOKEN_MIN_LENGTH_STRICT else TOKEN_MIN_LENGTH_DEFAULT)"

definition stripPossessive :: "string \<Rightarrow> string" where
  \<comment> \<open>\<^verbatim>\<open>.replace(/'(?:s|re|d)$/g, '')\<close>\<close>
  "stripPossessive s =
     (if endsWith s [CHR 0x27, CHR ''s''] then sliceEnd s 2
      else if endsWith s [CHR 0x27, CHR ''r'', CHR ''e''] then sliceEnd s 3
      else if endsWith s [CHR 0x27, CHR ''d''] then sliceEnd s 2
      else s)"

definition collapseIes :: "string \<Rightarrow> string" where
  "collapseIes b =
     (if endsWith b ''ies'' \<and> length b > 4 then sliceEnd b 3 @ ''y''
      else if endsWith b ''ied'' \<and> length b > 4 then sliceEnd b 3 @ ''y''
      else b)"

definition suffixes :: "string list" where
  "suffixes =
     [''ations'', ''ation'', ''ments'', ''ment'', ''izing'', ''ingly'', ''ing'', ''ers'',
      ''er'', ''ied'', ''ies'', ''ed'', ''ly'', ''es'', ''s'']"

fun stripFirstSuffix :: "string list \<Rightarrow> string \<Rightarrow> string" where
  \<comment> \<open>the \<^verbatim>\<open>for (const suffix of suffixes)\<close> loop with its \<^verbatim>\<open>break\<close>\<close>
  "stripFirstSuffix [] s = s"
| "stripFirstSuffix (suf # rest) s =
     (if endsWith s suf \<and> int (length s) - int (length suf) \<ge> 3
      then sliceEnd s (length suf)
      else stripFirstSuffix rest s)"

definition stemBase :: "string \<Rightarrow> string" where
  \<comment> \<open>the value of \<^verbatim>\<open>base\<close> in \<^verbatim>\<open>normalizeTokenVariants\<close>\<close>
  "stemBase token = collapseIes (stripPossessive token)"

definition stemmedVariant :: "string \<Rightarrow> string" where
  \<comment> \<open>the value of \<^verbatim>\<open>stemmed\<close> in \<^verbatim>\<open>normalizeTokenVariants\<close>\<close>
  "stemmedVariant token = stripFirstSuffix suffixes (stemBase token)"

definition normalizeTokenVariants :: "string \<Rightarrow> DedupeMode \<Rightarrow> string list" where
  "normalizeTokenVariants token m =
     (if m \<noteq> ModeStrict then [token]
      else filter (\<lambda>v. v \<noteq> [])
             (setAdd (setAdd (setAdd [] token) (stemBase token)) (stemmedVariant token)))"

definition urlMatchAfter :: "string \<Rightarrow> string \<Rightarrow> nat option" where
  \<comment> \<open>the scheme, then \<^verbatim>\<open>\S+\<close>: at least one code unit that is not white space\<close>
  "urlMatchAfter scheme s =
     (let rest = drop (length scheme) s
      in if take (length scheme) s = scheme \<and> rest \<noteq> [] \<and> \<not> isWhiteSpace (hd rest)
         then Some (length scheme + length (takeWhile (\<lambda>c. \<not> isWhiteSpace c) rest))
         else None)"

definition urlMatchLength :: "string \<Rightarrow> nat option" where
  \<comment> \<open>length of the match of \<^verbatim>\<open>https?:\/\/\S+\<close> anchored at the head of the string\<close>
  "urlMatchLength s =
     (case urlMatchAfter ''https://'' s of
        Some n \<Rightarrow> Some n
      | None \<Rightarrow> urlMatchAfter ''http://'' s)"

fun replaceUrls :: "nat \<Rightarrow> string \<Rightarrow> string" where
  \<comment> \<open>\<^verbatim>\<open>.replace(/https?:\/\/\S+/g, ' ')\<close>; the counter is what is left of the current match\<close>
  "replaceUrls k [] = []"
| "replaceUrls (Suc k) (c # cs) = replaceUrls k cs"
| "replaceUrls 0 (c # cs) =
     (case urlMatchLength (c # cs) of
        Some n \<Rightarrow> CHR '' '' # replaceUrls (n - 1) cs
      | None \<Rightarrow> c # replaceUrls 0 cs)"

fun splitRuns :: "(char \<Rightarrow> bool) \<Rightarrow> string \<Rightarrow> bool \<Rightarrow> string \<Rightarrow> string list" where
  \<comment> \<open>\<^verbatim>\<open>.split(/[class]+/)\<close>: the piece read so far, whether the scan is inside a separator\<close>
  "splitRuns p cur inSep [] = [cur]"
| "splitRuns p cur inSep (c # cs) =
     (if p c
      then (if inSep then splitRuns p cur True cs else cur # splitRuns p [] True cs)
      else splitRuns p (cur @ [c]) False cs)"

definition rawTokens :: "string \<Rightarrow> string \<Rightarrow> DedupeMode \<Rightarrow> string list" where
  "rawTokens ttl descr m =
     (let combined = ttl @ '' '' @ descr;
          minLength = getTokenMinLength m
      in filter (\<lambda>token. length token \<ge> minLength)
           (splitRuns isWhiteSpace [] False
              (replaceRuns (\<lambda>c. \<not> isLowerAlnum c \<and> \<not> isWhiteSpace c) False
                 (replaceUrls 0 (toLowerCase combined)))))"

fun addVariants :: "nat \<Rightarrow> string list \<Rightarrow> string list \<Rightarrow> string list \<times> bool" where
  \<comment> \<open>the inner loop of \<^verbatim>\<open>buildTokenSet\<close>; \<open>True\<close> when the cap made the function return\<close>
  "addVariants minLength ts [] = (ts, False)"
| "addVariants minLength ts (v # vs) =
     (if v = [] \<or> length v < minLength then addVariants minLength ts vs
      else (let ts' = setAdd ts v
            in if length ts' \<ge> MAX_TOKEN_COUNT then (ts', True)
               else addVariants minLength ts' vs))"

fun addTokens :: "DedupeMode \<Rightarrow> nat \<Rightarrow> string list \<Rightarrow> string list \<Rightarrow> string list" where
  "addTokens m minLength ts [] = ts"
| "addTokens m minLength ts (token # rest) =
     (if token = [] then addTokens m minLength ts rest
      else (case addVariants minLength ts (normalizeTokenVariants token m) of
              (ts', True) \<Rightarrow> ts'
            | (ts', False) \<Rightarrow> addTokens m minLength ts' rest))"

definition buildTokenSet :: "string \<Rightarrow> string \<Rightarrow> DedupeMode \<Rightarrow> string list" where
  "buildTokenSet ttl descr m =
     addTokens m (getTokenMinLength m) [] (rawTokens ttl descr m)"

section \<open>Similarity evaluators\<close>

definition computeTokenOverlapRatio :: "string list \<Rightarrow> string list \<Rightarrow> rat" where
  \<comment> \<open>\<^verbatim>\<open>larger\<close> is the other set: when the sizes differ the two sets are different objects\<close>
  "computeTokenOverlapRatio a b =
     (if length a = 0 \<or> length b = 0 then 0
      else (let smaller = (if length a \<le> length b then a else b);
                larger = (if length a \<le> length b then b else a);
                intersection = length (filter (\<lambda>token. token \<in> set larger) smaller)
            in of_nat intersection / of_nat (max 1 (length smaller))))"

definition getTokenOverlapThreshold :: "DedupeMode \<Rightarrow> rat" where
  "getTokenOverlapThreshold m =
     (if m = ModeStrict then TOKEN_OVERLAP_THRESHOLD_STRICT else TOKEN_OVERLAP_THRESHOLD_DEFAULT)"

definition matchDistance :: "string \<Rightarrow> string \<Rightarrow> nat" where
  "matchDistance a b = nat (max 0 (int (max (length a) (length b) div 2) - 1))"

definition findMatch :: "string \<Rightarrow> string \<Rightarrow> nat \<Rightarrow> bool list \<Rightarrow> nat \<Rightarrow> nat option" where
  \<comment> \<open>the inner \<^verbatim>\<open>for (let j = start; j < end; j += 1)\<close> loop: the first free \<open>j\<close> that matches\<close>
  "findMatch a b md bMatches i =
     (let start = nat (max 0 (int i - int md));
          end = min (i + md + 1) (length b)
      in find (\<lambda>j. \<not> bMatches ! j \<and> a ! i = b ! j) [start..<end])"

definition matchStep ::
  "string \<Rightarrow> string \<Rightarrow> nat \<Rightarrow> bool list \<times> bool list \<times> nat \<Rightarrow> nat \<Rightarrow> bool list \<times> bool list \<times> nat"
where
  "matchStep a b md st i =
     (case st of (aMatches, bMatches, matches) \<Rightarrow>
        (case findMatch a b md bMatches i of
           None \<Rightarrow> (aMatches, bMatches, matches)
         | Some j \<Rightarrow> (aMatches[i := True], bMatches[j := True], matches + 1)))"

definition matchLoop :: "string \<Rightarrow> string \<Rightarrow> bool list \<times> bool list \<times> nat" where
  "matchLoop a b =
     foldl (matchStep a b (matchDistance a b))
       (replicate (length a) False, replicate (length b) False, 0) [0..<length a]"

function skipUnmatched :: "bool list \<Rightarrow> nat \<Rightarrow> nat" where
  \<comment> \<open>\<^verbatim>\<open>while (k < bLength && !bMatches[k]) k += 1\<close>\<close>
  "skipUnmatched bMatches k =
     (if k < length bMatches \<and> \<not> bMatches ! k then skipUnmatched bMatches (Suc k) else k)"
  by pat_completeness auto
termination
  by (relation "measure (\<lambda>(bMatches, k). length bMatches - k)") auto

declare skipUnmatched.simps [simp del]

fun countTranspositions ::
  "string \<Rightarrow> string \<Rightarrow> bool list \<Rightarrow> bool list \<Rightarrow> nat list \<Rightarrow> nat \<Rightarrow> nat \<Rightarrow> nat"
where
  \<comment> \<open>the second loop over \<open>i\<close>, with the pointer \<open>k\<close> and the counter\<close>
  "countTranspositions a b aMatches bMatches [] k t = t"
| "countTranspositions a b aMatches bMatches (i # is) k t =
     (if \<not> aMatches ! i then countTranspositions a b aMatches bMatches is k t
      else (let k' = skipUnmatched bMatches k
            in if k' \<ge> length b then t
               else countTranspositions a b aMatches bMatches is (Suc k')
                      (if a ! i \<noteq> b ! k' then t + 1 else t)))"

function commonPrefix :: "string \<Rightarrow> string \<Rightarrow> nat \<Rightarrow> nat \<Rightarrow> nat" where
  \<comment> \<open>\<^verbatim>\<open>while (prefix < maxPrefix && a[prefix] === b[prefix]) prefix += 1\<close>\<close>
  "commonPrefix a b maxPrefix p =
     (if p < maxPrefix \<and> a ! p = b ! p then commonPrefix a b maxPrefix (Suc p) else p)"
  by pat_completeness auto
termination
  by (relation "measure (\<lambda>(a, b, maxPrefix, p). maxPrefix - p)") auto

declare commonPrefix.simps [simp del]

definition computeJaroWinklerSimilarity :: "string \<Rightarrow> string \<Rightarrow> rat" where
  "computeJaroWinklerSimilarity a b =
     (if a = [] \<or> b = [] then 0
      else if a = b then 1
      else (case matchLoop a b of (aMatches, bMatches, matches) \<Rightarrow>
        if matches = 0 then 0
        else (let transpositions =
                    countTranspositions a b aMatches bMatches [0..<length a] 0 0;
                  m = (of_nat matches :: rat);
                  jaro = (m / of_nat (length a) + m / of_nat (length b)
                          + (m - of_nat transpositions / 2) / m) / 3;
                  maxPrefix = min 4 (min (length a) (length b));
                  prefix = commonPrefix a b maxPrefix 0;
                  winkler = jaro + of_nat prefix * (1 / 10) * (1 - jaro)
              in min 1 winkler)))"

section \<open>Data model\<close>

record RelatedArticle =
  rel_title :: string
  rel_description :: string
  rel_url :: string
  rel_source :: string
  rel_publishedAt :: string

record NormalizedHeadline =
  title :: string
  description :: string
  url :: string
  source :: string
  publishedAt :: string
  queryUsed :: "string option"
  keyword :: "string option"
  searchQuery :: "string option"

record HeadlineCandidate =
  data :: NormalizedHeadline
  normalizedUrl :: string
  normalizedTitle :: string
  tokenSet :: "string list"
  normalizedDescription :: string
  related :: "RelatedArticle list"

record DedupeOptions =
  mode :: DedupeMode
  excludedUrls :: "string list option"

definition truthy :: "string option \<Rightarrow> bool" where
  \<comment> \<open>an optional string in a condition: present and not empty\<close>
  "truthy v = (case v of None \<Rightarrow> False | Some s \<Rightarrow> s \<noteq> [])"

section \<open>Near-duplicate classifier\<close>

definition areHeadlinesNearDuplicate ::
  "HeadlineCandidate \<Rightarrow> HeadlineCandidate \<Rightarrow> DedupeOptions \<Rightarrow> bool"
where
  "areHeadlinesNearDuplicate a b options =
     (if normalizedUrl a \<noteq> [] \<and> normalizedUrl b \<noteq> [] \<and> normalizedUrl a = normalizedUrl b
      then True
      else if normalizedTitle a \<noteq> [] \<and> normalizedTitle b \<noteq> []
              \<and> normalizedTitle a = normalizedTitle b
      then True
      else if normalizedDescription a \<noteq> [] \<and> normalizedDescription b \<noteq> []
              \<and> normalizedDescription a = normalizedDescription b
      then True
      else (let overlap = computeTokenOverlapRatio (tokenSet a) (tokenSet b)
            in if overlap \<ge> getTokenOverlapThreshold (mode options) then True
               else if mode options = ModeStrict
               then (let titleSimilarity =
                           computeJaroWinklerSimilarity (normalizedTitle a) (normalizedTitle b)
                     in if titleSimilarity \<ge> STRICT_TITLE_SIMILARITY_THRESHOLD then True
                        else False)
               else False))"

section \<open>Candidate aggregator\<close>

definition createHeadlineCandidate ::
  "Platform \<Rightarrow> NormalizedHeadline \<Rightarrow> DedupeOptions \<Rightarrow> HeadlineCandidate"
where
  "createHeadlineCandidate plat headline options =
     \<lparr> data = headline,
       normalizedUrl = normalizeUrlForComparison plat (url headline),
       normalizedTitle = normalizeHeadlineText (title headline),
       tokenSet = buildTokenSet (title headline) (description headline) (mode options),
       normalizedDescription = normalizeHeadlineText (description headline),
       related = [] \<rparr>"

definition isRepeatedUrl :: "Platform \<Rightarrow> HeadlineCandidate \<Rightarrow> NormalizedHeadline \<Rightarrow> bool" where
  \<comment> \<open>the guard that drops a duplicate whose URL the cluster already holds\<close>
  "isRepeatedUrl plat existing candidate =
     (let normalizedCandidateUrl = normalizeUrlForComparison plat (url candidate)
      in normalizedCandidateUrl \<noteq> []
         \<and> (normalizedCandidateUrl = normalizedUrl existing
              \<or> (\<exists>relatedArticle \<in> set (related existing).
                     normalizeUrlForComparison plat (rel_url relatedArticle)
                       = normalizedCandidateUrl)))"

definition backfillDescription :: "HeadlineCandidate \<Rightarrow> NormalizedHeadline \<Rightarrow> HeadlineCandidate" where
  "backfillDescription existing candidate =
     (if description candidate \<noteq> []
         \<and> length (description candidate) > length (description (data existing))
      then existing\<lparr> data := (data existing)\<lparr> description := description candidate \<rparr>,
                     normalizedDescription := normalizeHeadlineText (description candidate) \<rparr>
      else existing)"

definition backfillKeyword :: "HeadlineCandidate \<Rightarrow> NormalizedHeadline \<Rightarrow> HeadlineCandidate" where
  "backfillKeyword existing candidate =
     (if truthy (keyword candidate) \<and> \<not> truthy (keyword (data existing))
      then existing\<lparr> data := (data existing)\<lparr> keyword := keyword candidate \<rparr> \<rparr>
      else existing)"

definition backfillQueryUsed :: "HeadlineCandidate \<Rightarrow> NormalizedHeadline \<Rightarrow> HeadlineCandidate" where
  "backfillQueryUsed existing candidate =
     (if truthy (queryUsed candidate) \<and> \<not> truthy (queryUsed (data existing))
      then existing\<lparr> data := (data existing)\<lparr> queryUsed := queryUsed candidate \<rparr> \<rparr>
      else existing)"

definition backfillSearchQuery :: "HeadlineCandidate \<Rightarrow> NormalizedHeadline \<Rightarrow> HeadlineCandidate" where
  "backfillSearchQuery existing candidate =
     (if truthy (searchQuery candidate) \<and> \<not> truthy (searchQuery (data existing))
      then existing\<lparr> data := (data existing)\<lparr> searchQuery := searchQuery candidate \<rparr> \<rparr>
      else existing)"

definition relatedOf :: "NormalizedHeadline \<Rightarrow> RelatedArticle" where
  "relatedOf candidate =
     \<lparr> rel_title = title candidate,
       rel_description = description candidate,
       rel_url = url candidate,
       rel_source = source candidate,
       rel_publishedAt = publishedAt candidate \<rparr>"

definition mergeInto ::
  "HeadlineCandidate \<Rightarrow> NormalizedHeadline \<Rightarrow> HeadlineCandidate \<Rightarrow> HeadlineCandidate"
where
  \<comment> \<open>the in-place updates of \<^verbatim>\<open>existing\<close> once the candidate is accepted as a duplicate\<close>
  "mergeInto existing candidate enriched =
     (let e1 = backfillDescription existing candidate;
          e2 = backfillKeyword e1 candidate;
          e3 = backfillQueryUsed e2 candidate;
          e4 = backfillSearchQuery e3 candidate;
          e5 = e4\<lparr> related := related e4 @ [relatedOf candidate] \<rparr>
      in e5\<lparr> tokenSet := foldl setAdd (tokenSet e5) (tokenSet enriched) \<rparr>)"

fun scanAggregated ::
  "Platform \<Rightarrow> DedupeOptions \<Rightarrow> NormalizedHeadline \<Rightarrow> HeadlineCandidate
     \<Rightarrow> HeadlineCandidate list \<Rightarrow> HeadlineCandidate list option"
where
  \<comment> \<open>the \<^verbatim>\<open>for (const existing of aggregated)\<close> loop: \<open>Some\<close> the updated list when a
      cluster matched (the function then returns \<^verbatim>\<open>false\<close>), \<open>None\<close> when none did\<close>
  "scanAggregated plat options candidate enriched [] = None"
| "scanAggregated plat options candidate enriched (existing # rest) =
     (if areHeadlinesNearDuplicate existing enriched options
      then (if isRepeatedUrl plat existing candidate then Some (existing # rest)
            else Some (mergeInto existing candidate enriched # rest))
      else map_option ((#) existing) (scanAggregated plat options candidate enriched rest))"

definition isExcluded :: "DedupeOptions \<Rightarrow> HeadlineCandidate \<Rightarrow> bool" where
  "isExcluded options enriched =
     (normalizedUrl enriched \<noteq> []
      \<and> (case excludedUrls options of
            None \<Rightarrow> False
          | Some urls \<Rightarrow> normalizedUrl enriched \<in> set urls))"

definition addHeadlineIfUnique ::
  "Platform \<Rightarrow> HeadlineCandidate list \<Rightarrow> NormalizedHeadline \<Rightarrow> DedupeOptions
     \<Rightarrow> HeadlineCandidate list \<times> bool"
where
  \<comment> \<open>the list after the call, and the returned flag\<close>
  "addHeadlineIfUnique plat aggregated candidate options =
     (let enriched = createHeadlineCandidate plat candidate options
      in if isExcluded options enriched then (aggregated, False)
         else (case scanAggregated plat options candidate enriched aggregated of
                 Some aggregated' \<Rightarrow> (aggregated', False)
               | None \<Rightarrow> (aggregated @ [enriched], True)))"

definition feedAll ::
  "Platform \<Rightarrow> DedupeOptions \<Rightarrow> HeadlineCandidate list \<Rightarrow> NormalizedHeadline list
     \<Rightarrow> HeadlineCandidate list"
where
  \<comment> \<open>the records handed to \<open>addHeadlineIfUnique\<close> one after the other, in arrival order\<close>
  "feedAll plat options aggregated records =
     foldl (\<lambda>agg r. fst (addHeadlineIfUnique plat agg r options)) aggregated records"

subsection \<open>The options of a run\<close>

definition MAX_EXCLUDE_URLS :: nat where "MAX_EXCLUDE_URLS = 200"

datatype RawEntry = EntryString string | EntryOther

datatype RawExcludeUrls =
  RawAbsent | RawArray "RawEntry list" | RawText string | RawInvalid

fun collectExcludeUrls :: "Platform \<Rightarrow> string list \<Rightarrow> RawEntry list \<Rightarrow> string list" where
  \<comment> \<open>the loop of \<^verbatim>\<open>normalizeExcludeUrls\<close>; \<^verbatim>\<open>seen\<close> holds the strings of \<^verbatim>\<open>normalized\<close>\<close>
  "collectExcludeUrls plat normalized [] = normalized"
| "collectExcludeUrls plat normalized (EntryOther # rest) =
     collectExcludeUrls plat normalized rest"
| "collectExcludeUrls plat normalized (EntryString entry # rest) =
     (let trimmed = trim entry
      in if trimmed = [] then collectExcludeUrls plat normalized rest
         else (let normalizedUrl = normalizeUrlForComparison plat trimmed
               in if normalizedUrl = [] then collectExcludeUrls plat normalized rest
                  else if normalizedUrl \<in> set normalized
                  then collectExcludeUrls plat normalized rest
                  else (let normalized' = normalized @ [normalizedUrl]
                        in if length normalized' \<ge> MAX_EXCLUDE_URLS then normalized'
                           else collectExcludeUrls plat normalized' rest)))"

definition normalizeExcludeUrls :: "Platform \<Rightarrow> RawExcludeUrls \<Rightarrow> string + string list" where
  "normalizeExcludeUrls plat raw =
     (case raw of
        RawAbsent \<Rightarrow> Inr []
      | RawArray entries \<Rightarrow> Inr (collectExcludeUrls plat [] entries)
      | RawText text \<Rightarrow>
          Inr (collectExcludeUrls plat []
                 (map EntryString
                    (splitRuns (\<lambda>c. c \<in> set [CHR 0x0D, CHR 0x0A, CHR '','', CHR '';'']) [] False
                       text)))
      | RawInvalid \<Rightarrow> Inl ''excludeUrls must be provided as an array or string list of URLs'')"

definition runOptions :: "DedupeMode \<Rightarrow> string list \<Rightarrow> DedupeOptions" where
  \<comment> \<open>the handler: \<^verbatim>\<open>{ mode }\<close>, and the set of excluded URLs when there is one\<close>
  "runOptions dedupeMode excludeUrls =
     (if length excludeUrls > 0
      then \<lparr> mode = dedupeMode, excludedUrls = Some excludeUrls \<rparr>
      else \<lparr> mode = dedupeMode, excludedUrls = None \<rparr>)"

section \<open>Ranker\<close>

definition RANKING_RECENCY_WEIGHT :: rat where "RANKING_RECENCY_WEIGHT = 45 / 100"
definition RANKING_SOURCE_WEIGHT :: rat where "RANKING_SOURCE_WEIGHT = 2 / 10"
definition RANKING_TOPIC_WEIGHT :: rat where "RANKING_TOPIC_WEIGHT = 2 / 10"
definition RANKING_CLUSTER_WEIGHT :: rat where "RANKING_CLUSTER_WEIGHT = 25 / 100"
definition CLUSTER_SIZE_FULL_SCORE :: nat where "CLUSTER_SIZE_FULL_SCORE = 8"
definition CLUSTER_SOURCES_FULL_SCORE :: nat where "CLUSTER_SOURCES_FULL_SCORE = 5"

record HeadlineRankingComponents =
  recency :: rat
  sourceDiversity :: rat
  topicCoverage :: rat
  clusterSupport :: rat

record RankingDetails =
  ageHours :: "rat option"
  sourceOccurrences :: nat
  uniqueTokenRatio :: rat
  clusterSize :: nat
  clusterUniqueSources :: nat

record HeadlineRankingMetadata =
  score :: rat
  components :: HeadlineRankingComponents
  details :: RankingDetails
  reasons :: "string list"

record RankedHeadlineCandidate =
  candidate :: HeadlineCandidate
  ranking :: HeadlineRankingMetadata

record ScoredCandidate = RankedHeadlineCandidate +
  index :: nat

text \<open>
  \<^verbatim>\<open>Date.now()\<close> is read once for every cluster whose date parses. The clock of a run
  is the sequence of these readings; the ranker threads the number of readings made.
\<close>

type_synonym Clock = "nat \<Rightarrow> int"

definition computeRecencyScore ::
  "Platform \<Rightarrow> Clock \<Rightarrow> string \<Rightarrow> nat \<Rightarrow> (rat \<times> rat option) \<times> nat"
where
  \<comment> \<open>the pair is \<^verbatim>\<open>{ score, ageHours }\<close>; \<^verbatim>\<open>clamped\<close> is always finite here\<close>
  "computeRecencyScore plat clock published t =
     (if published = [] then ((0, None), t)
      else case Date_parse plat published of
        None \<Rightarrow> ((0, None), t)
      | Some parsed \<Rightarrow>
          (let now = clock t;
               age = max 0 (of_int (now - parsed) / (1000 * 60 * 60));
               maxHours = 72;
               clamped = min age maxHours
           in ((1 - clamped / maxHours, Some age), Suc t)))"

definition computeSourceDiversityScore :: "nat \<Rightarrow> rat" where
  "computeSourceDiversityScore occurrences =
     (if occurrences \<le> 0 then 0 else 1 / of_nat occurrences)"

definition computeTopicCoverageScore :: "string list \<Rightarrow> (string \<rightharpoonup> nat) \<Rightarrow> rat \<times> rat" where
  \<comment> \<open>the pair is \<^verbatim>\<open>{ score, ratio }\<close>\<close>
  "computeTopicCoverageScore tokens tokenFrequency =
     (if length tokens = 0 then (0, 0)
      else (let uniqueTokens =
                  length (filter (\<lambda>token. (case tokenFrequency token of None \<Rightarrow> 0 | Some n \<Rightarrow> n) \<le> 1)
                            tokens);
                ratio = of_nat uniqueTokens / of_nat (max 1 (length tokens))
            in (ratio, ratio)))"

definition sourceKeyOf :: "string \<Rightarrow> string" where
  \<comment> \<open>\<^verbatim>\<open>source.trim().toLowerCase() || 'unknown'\<close>\<close>
  "sourceKeyOf s = (let normalized = toLowerCase (trim s) in if normalized = [] then ''unknown'' else normalized)"

definition computeClusterSupportScore :: "HeadlineCandidate \<Rightarrow> rat \<times> nat \<times> nat" where
  \<comment> \<open>the triple is \<^verbatim>\<open>{ score, clusterSize, clusterUniqueSources }\<close>\<close>
  "computeClusterSupportScore c =
     (let members = max 1 (length (related c) + 1);
          sources = foldl setAdd (setAdd [] (sourceKeyOf (source (data c))))
                      (map (\<lambda>article. sourceKeyOf (rel_source article)) (related c));
          uniqueSources = length sources;
          normalizedSize =
            (if CLUSTER_SIZE_FULL_SCORE \<le> 1 then (if members > 1 then 1 else 0)
             else min 1 ((of_nat members - 1) / (of_nat CLUSTER_SIZE_FULL_SCORE - 1)));
          normalizedSources =
            (if CLUSTER_SOURCES_FULL_SCORE \<le> 1 then (if uniqueSources > 1 then 1 else 0)
             else min 1 ((of_nat uniqueSources - 1) / (of_nat CLUSTER_SOURCES_FULL_SCORE - 1)))
      in (min 1 ((normalizedSize + normalizedSources) / 2), members, uniqueSources))"

definition recencyReasons :: "HeadlineRankingMetadata \<Rightarrow> string list" where
  "recencyReasons metadata =
     (if ageHours (details metadata) \<noteq> None
      then (if recency (components metadata) \<ge> 75 / 100 then [''Published within the last 18 hours'']
            else if recency (components metadata) \<ge> 1 / 2 then [''Published recently'']
            else if recency (components metadata) \<le> 1 / 10 then [''Older coverage'']
            else [])
      else [])"

definition sourceReasons :: "HeadlineRankingMetadata \<Rightarrow> string list" where
  "sourceReasons metadata =
     (if sourceDiversity (components metadata) \<ge> 75 / 100 then [''Unique source in this set'']
      else if sourceDiversity (components metadata) \<le> 25 / 100
      then [''Source appears multiple times'']
      else [])"

definition topicReasons :: "HeadlineRankingMetadata \<Rightarrow> string list" where
  "topicReasons metadata =
     (if topicCoverage (components metadata) \<ge> 6 / 10 then [''Adds distinct topic details'']
      else if topicCoverage (components metadata) \<le> 2 / 10
      then [''Overlaps heavily with other articles'']
      else [])"

definition clusterReasons :: "HeadlineRankingMetadata \<Rightarrow> string list" where
  "clusterReasons metadata =
     (if clusterSupport (components metadata) \<ge> 6 / 10 then [''Covered by many outlets'']
      else if clusterSupport (components metadata) \<ge> 3 / 10 then [''Multiple supporting reports'']
      else if clusterSize (details metadata) \<le> 1 then [''Limited supporting coverage'']
      else [])"

definition buildRankingReasons :: "HeadlineRankingMetadata \<Rightarrow> string list" where
  "buildRankingReasons metadata =
     recencyReasons metadata @ sourceReasons metadata @ topicReasons metadata
       @ clusterReasons metadata"

definition bump :: "(string \<rightharpoonup> nat) \<Rightarrow> string \<Rightarrow> (string \<rightharpoonup> nat)" where
  \<comment> \<open>\<^verbatim>\<open>m.set(k, (m.get(k) ?? 0) + 1)\<close>\<close>
  "bump m k = m(k \<mapsto> (case m k of None \<Rightarrow> 0 | Some n \<Rightarrow> n) + 1)"

definition countFrequencies ::
  "HeadlineCandidate list \<Rightarrow> (string \<rightharpoonup> nat) \<times> (string \<rightharpoonup> nat)"
where
  \<comment> \<open>the first \<^verbatim>\<open>forEach\<close>: \<^verbatim>\<open>sourceFrequency\<close> and \<^verbatim>\<open>tokenFrequency\<close>\<close>
  "countFrequencies candidates =
     foldl (\<lambda>(sourceFrequency, tokenFrequency) c.
              (bump sourceFrequency (sourceKeyOf (source (data c))),
               foldl bump tokenFrequency (tokenSet c)))
       (Map.empty, Map.empty) candidates"

definition scoreCandidate ::
  "Platform \<Rightarrow> Clock \<Rightarrow> (string \<rightharpoonup> nat) \<Rightarrow> (string \<rightharpoonup> nat) \<Rightarrow> HeadlineCandidate \<Rightarrow> nat \<Rightarrow> nat
     \<Rightarrow> ScoredCandidate \<times> nat"
where
  \<comment> \<open>the body of \<^verbatim>\<open>candidates.map((candidate, index) => ...)\<close>\<close>
  "scoreCandidate plat clock sourceFrequency tokenFrequency c idx t =
     (let sourceKey = sourceKeyOf (source (data c));
          occurrences = (case sourceFrequency sourceKey of None \<Rightarrow> 1 | Some n \<Rightarrow> n)
      in case computeRecencyScore plat clock (publishedAt (data c)) t of
           ((recencyScore, age), t') \<Rightarrow>
        (case computeTopicCoverageScore (tokenSet c) tokenFrequency of
           (topicScore, topicRatio) \<Rightarrow>
        (case computeClusterSupportScore c of
           (clusterScore, members, uniqueSources) \<Rightarrow>
        (let sourceScore = computeSourceDiversityScore occurrences;
             total = recencyScore * RANKING_RECENCY_WEIGHT
                     + sourceScore * RANKING_SOURCE_WEIGHT
                     + topicScore * RANKING_TOPIC_WEIGHT
                     + clusterScore * RANKING_CLUSTER_WEIGHT;
             metadata =
               \<lparr> score = total,
                 components =
                   \<lparr> recency = recencyScore, sourceDiversity = sourceScore,
                     topicCoverage = topicScore, clusterSupport = clusterScore \<rparr>,
                 details =
                   \<lparr> ageHours = age, sourceOccurrences = occurrences,
                     uniqueTokenRatio = topicRatio, clusterSize = members,
                     clusterUniqueSources = uniqueSources \<rparr>,
                 reasons = [] \<rparr>
         in (\<lparr> candidate = c,
               ranking = metadata\<lparr> reasons := buildRankingReasons metadata \<rparr>,
               index = idx \<rparr>, t')))))"

fun scoreCandidates ::
  "Platform \<Rightarrow> Clock \<Rightarrow> (string \<rightharpoonup> nat) \<Rightarrow> (string \<rightharpoonup> nat) \<Rightarrow> nat \<Rightarrow> nat
     \<Rightarrow> HeadlineCandidate list \<Rightarrow> ScoredCandidate list"
where
  "scoreCandidates plat clock sf tf idx t [] = []"
| "scoreCandidates plat clock sf tf idx t (c # cs) =
     (case scoreCandidate plat clock sf tf c idx t of
        (entry, t') \<Rightarrow> entry # scoreCandidates plat clock sf tf (Suc idx) t' cs)"

definition signOf :: "rat \<Rightarrow> int" where
  "signOf x = (if x < 0 then - 1 else if x = 0 then 0 else 1)"

definition compareScored :: "ScoredCandidate \<Rightarrow> ScoredCandidate \<Rightarrow> int" where
  \<comment> \<open>the sign of what the comparator returns; an age of \<open>None\<close> stands for
      \<^verbatim>\<open>Number.POSITIVE_INFINITY\<close>\<close>
  "compareScored a b =
     (if score (ranking b) \<noteq> score (ranking a)
      then signOf (score (ranking b) - score (ranking a))
      else (let aAge = ageHours (details (ranking a));
                bAge = ageHours (details (ranking b))
            in if (aAge \<noteq> None \<or> bAge \<noteq> None) \<and> aAge \<noteq> bAge
               then (case (aAge, bAge) of
                       (Some x, Some y) \<Rightarrow> signOf (x - y)
                     | (None, _) \<Rightarrow> 1
                     | (Some x, None) \<Rightarrow> - 1)
               else int (index a) - int (index b)))"

fun insertSorted :: "('a \<Rightarrow> 'a \<Rightarrow> int) \<Rightarrow> 'a \<Rightarrow> 'a list \<Rightarrow> 'a list" where
  "insertSorted cmp x [] = [x]"
| "insertSorted cmp x (y # ys) =
     (if cmp x y \<le> 0 then x # y # ys else y # insertSorted cmp x ys)"

definition sortWith :: "('a \<Rightarrow> 'a \<Rightarrow> int) \<Rightarrow> 'a list \<Rightarrow> 'a list" where
  \<comment> \<open>\<^verbatim>\<open>Array.prototype.sort\<close> with a comparator: a stable sort\<close>
  "sortWith cmp xs = foldr (insertSorted cmp) xs []"

definition scoredSorted :: "Platform \<Rightarrow> Clock \<Rightarrow> HeadlineCandidate list \<Rightarrow> ScoredCandidate list" where
  \<comment> \<open>the array \<^verbatim>\<open>scored\<close> after \<^verbatim>\<open>scored.sort(...)\<close>\<close>
  "scoredSorted plat clock candidates =
     (case countFrequencies candidates of
        (sourceFrequency, tokenFrequency) \<Rightarrow>
          sortWith compareScored
            (scoreCandidates plat clock sourceFrequency tokenFrequency 0 0 candidates))"

definition rankHeadlineCandidates ::
  "Platform \<Rightarrow> Clock \<Rightarrow> HeadlineCandidate list \<Rightarrow> RankedHeadlineCandidate list"
where
  "rankHeadlineCandidates plat clock candidates =
     (if length candidates = 0 then []
      else map RankedHeadlineCandidate.truncate (scoredSorted plat clock candidates))"

section \<open>Response builder\<close>

record HeadlineResponseEntry = NormalizedHeadline +
  relatedArticles :: "RelatedArticle list option"
  entryRanking :: "HeadlineRankingMetadata option"

definition buildHeadlineResponse :: "RankedHeadlineCandidate \<Rightarrow> HeadlineResponseEntry" where
  "buildHeadlineResponse entry =
     \<lparr> title = title (data (candidate entry)),
       description = description (data (candidate entry)),
       url = url (data (candidate entry)),
       source = source (data (candidate entry)),
       publishedAt = publishedAt (data (candidate entry)),
       queryUsed = None, keyword = None, searchQuery = None,
       relatedArticles =
         (if length (related (candidate entry)) > 0 then Some (related (candidate entry)) else None),
       entryRanking = Some (ranking entry) \<rparr>"

definition buildHeadlineResponses :: "RankedHeadlineCandidate list \<Rightarrow> HeadlineResponseEntry list" where
  "buildHeadlineResponses ranked =
     (if length ranked = 0 then [] else map buildHeadlineResponse ranked)"

definition headlineEntries ::
  "Platform \<Rightarrow> Clock \<Rightarrow> nat \<Rightarrow> HeadlineCandidate list \<Rightarrow> HeadlineResponseEntry list"
where
  \<comment> \<open>the end of the handler: rank, \<^verbatim>\<open>slice(0, limit)\<close>, build the responses\<close>
  "headlineEntries plat clock limit aggregatedHeadlines =
     (let rankedCandidates = rankHeadlineCandidates plat clock aggregatedHeadlines;
          topRanked = take limit rankedCandidates
      in buildHeadlineResponses topRanked)"

definition rankAndDeduplicate ::
  "Platform \<Rightarrow> Clock \<Rightarrow> NormalizedHeadline list \<Rightarrow> DedupeOptions \<Rightarrow> nat
     \<Rightarrow> HeadlineResponseEntry list"
where
  \<comment> \<open>one run of the engine, in the shape of the entry point that section 6 of the
      specification names: the handler hands every record it fetched to
      \<open>addHeadlineIfUnique\<close>, then ranks and truncates; the fetching is left out\<close>
  "rankAndDeduplicate plat clock records options limit =
     headlineEntries plat clock limit (feedAll plat options [] records)"

section \<open>The stemmer in the words of the specification\<close>

text \<open>
  The specification describes the stemmed variant of a token in two steps. These
  definitions follow its words, to be compared with \<open>stemmedVariant\<close>.
\<close>

definition spec_collapse :: "string \<Rightarrow> string" where
  \<comment> \<open>"collapse \<^verbatim>\<open>ies\<close>/\<^verbatim>\<open>ied\<close> endings to \<^verbatim>\<open>y\<close>"\<close>
  "spec_collapse s =
     (if endsWith s ''ies'' \<or> endsWith s ''ied'' then sliceEnd s 3 @ ''y'' else s)"

definition spec_collapseLong :: "string \<Rightarrow> string" where
  \<comment> \<open>the same step, taken only by a token of more than four characters\<close>
  "spec_collapseLong s =
     (if (endsWith s ''ies'' \<or> endsWith s ''ied'') \<and> length s > 4
      then sliceEnd s 3 @ ''y'' else s)"

definition strippable :: "string \<Rightarrow> string \<Rightarrow> bool" where
  \<comment> \<open>the suffix matches and the remaining stem has at least three characters\<close>
  "strippable s suf = (endsWith s suf \<and> length s \<ge> length suf + 3)"

definition spec_stripLongest :: "string \<Rightarrow> string" where
  \<comment> \<open>"strip the longest matching suffix provided the remaining stem is at least 3 characters"\<close>
  "spec_stripLongest s =
     (case filter (strippable s) suffixes of
        [] \<Rightarrow> s
      | e # es \<Rightarrow> sliceEnd s (foldl max (length e) (map length es)))"

definition spec_stem :: "string \<Rightarrow> string" where
  "spec_stem token = spec_stripLongest (spec_collapse token)"

fun longestFirst :: "string list \<Rightarrow> bool" where
  \<comment> \<open>no entry of the list is a suffix of a longer entry that comes after it\<close>
  "longestFirst [] = True"
| "longestFirst (x # xs) =
     ((\<forall>y \<in> set xs. length x < length y \<longrightarrow> \<not> endsWith y x) \<and> longestFirst xs)"

section \<open>Reference inputs\<close>

definition refPlatform :: Platform where
  \<comment> \<open>the platform on the strings the examples use: what \<^verbatim>\<open>new URL\<close> and
      \<^verbatim>\<open>Date.parse\<close> return for them; any other string is taken as unparsable\<close>
  "refPlatform =
     \<lparr> URL_parse = (\<lambda>u. if u = ''https://example.com/a''
                          then Some \<lparr> protocol = ''https:'', hostname = ''example.com'',
                                      pathname = ''/a'' \<rparr>
                          else None),
       Date_parse = (\<lambda>s. if s = ''2024-01-01T00:00:00Z'' then Some 1704067200000
                          else if s = ''2024-01-05T00:00:00Z'' then Some 1704412800000
                          else None) \<rparr>"

definition headline :: "string \<Rightarrow> string \<Rightarrow> string \<Rightarrow> string \<Rightarrow> string \<Rightarrow> NormalizedHeadline" where
  "headline t d u s p =
     \<lparr> title = t, description = d, url = u, source = s, publishedAt = p,
       queryUsed = None, keyword = None, searchQuery = None \<rparr>"

definition defaultOptions :: DedupeOptions where
  "defaultOptions = \<lparr> mode = ModeDefault, excludedUrls = None \<rparr>"




definition marsWithUrl :: NormalizedHeadline where
  "marsWithUrl = headline ''Mars rover finds water'' [] ''https://example.com/a'' ''A'' []"

definition marsNoUrl :: NormalizedHeadline where
  "marsNoUrl = headline ''Mars rover finds water'' [] [] ''A'' []"

definition blankRecord :: NormalizedHeadline where
  "blankRecord = headline [] [] [] ''A'' []"

definition marsLong :: NormalizedHeadline where
  "marsLong =
     (headline ''Mars Rover Finds Water!!'' ''Ice below the surface'' [] ''B'' [])
       \<lparr> keyword := Some ''mars'' \<rparr>"

definition wireStory :: NormalizedHeadline where
  "wireStory = headline ''Mars rover finds water'' [] [] ''A'' ''2024-01-01T00:00:00Z''"

definition wireCopy :: NormalizedHeadline where
  "wireCopy = headline ''Mars rover finds water'' [] [] ''B'' []"

definition datedStory :: NormalizedHeadline where
  "datedStory =
     headline ''Other thing entirely'' [] ''https://example.com/a'' ''B'' ''2024-01-01T00:00:00Z''"

definition youngerStory :: NormalizedHeadline where
  "youngerStory = headline ''Election results announced'' [] [] ''C'' ''2024-01-05T00:00:00Z''"

definition atPublication :: Clock where
  \<comment> \<open>every reading is the instant \<^verbatim>\<open>2024-01-01T00:00:00Z\<close>\<close>
  "atPublication = (\<lambda>_. 1704067200000)"

definition hoursLater :: "int \<Rightarrow> Clock" where
  \<comment> \<open>every reading is \<open>h\<close> hours after that instant\<close>
  "hoursLater h = (\<lambda>_. 1704067200000 + h * 3600000)"

section \<open>The order of the comparator, and the score of a response entry\<close>

definition ageBefore :: "rat option \<Rightarrow> rat option \<Rightarrow> bool" where
  \<comment> \<open>a known age is smaller than a larger known age and than an unknown age\<close>
  "ageBefore x y =
     (case (x, y) of
        (Some p, Some q) \<Rightarrow> p < q
      | (Some p, None) \<Rightarrow> True
      | (None, _) \<Rightarrow> False)"

definition ranksBefore :: "ScoredCandidate \<Rightarrow> ScoredCandidate \<Rightarrow> bool" where
  \<comment> \<open>higher score, then smaller age, then smaller index\<close>
  "ranksBefore a b =
     (score (ranking b) < score (ranking a)
      \<or> (score (ranking a) = score (ranking b)
          \<and> (ageBefore (ageHours (details (ranking a))) (ageHours (details (ranking b)))
              \<or> (ageHours (details (ranking a)) = ageHours (details (ranking b))
                  \<and> index a \<le> index b))))"

definition entryScore :: "HeadlineResponseEntry \<Rightarrow> rat" where
  "entryScore e = (case entryRanking e of Some r \<Rightarrow> score r | None \<Rightarrow> 0)"

section \<open>Properties of the classifier\<close>



lemma mode_defaultOptions: "mode defaultOptions = ModeDefault"
  by (simp add: defaultOptions_def)





section \<open>Properties of the similarity evaluators\<close>

lemma findMatch_disjoint:
  assumes "set a \<inter> set b = {}" "i < length a"
  shows "findMatch a b md bM i = None"
proof -
  have "\<And>j. j < length b \<Longrightarrow> a ! i \<noteq> b ! j"
    using assms by (metis disjoint_iff nth_mem)
  then show ?thesis
    by (auto simp: findMatch_def Let_def find_None_iff)
qed

lemma matchSteps_disjoint:
  assumes "set a \<inter> set b = {}" "\<forall>i \<in> set is. i < length a"
  shows "foldl (matchStep a b md) st is = st"
  using assms(2)
proof (induction "is" arbitrary: st)
  case Nil
  then show ?case by simp
next
  case (Cons i "is")
  then have "matchStep a b md st i = st"
    using findMatch_disjoint[OF assms(1)] by (cases st) (simp add: matchStep_def)
  with Cons show ?case by simp
qed

lemma matchLoop_disjoint:
  "set a \<inter> set b = {} \<Longrightarrow> snd (snd (matchLoop a b)) = 0"
  by (simp add: matchLoop_def matchSteps_disjoint)

text \<open>
  Claim C8, as the code has it. The Jaro-Winkler similarity of a non-empty string with
  itself is 1, and the similarity is 0 whenever no character of one string matches a
  character of the other: when the strings have no character in common, and more generally
  when the matching loop of two different strings counts no match.
\<close>

theorem jaro_winkler_identical_and_unmatched:
  "(a \<noteq> [] \<longrightarrow> computeJaroWinklerSimilarity a a = 1)
   \<and> (set a \<inter> set b = {} \<longrightarrow> computeJaroWinklerSimilarity a b = 0)
   \<and> (a \<noteq> b \<and> snd (snd (matchLoop a b)) = 0 \<longrightarrow> computeJaroWinklerSimilarity a b = 0)"
proof (intro conjI impI)
  assume "a \<noteq> []"
  then show "computeJaroWinklerSimilarity a a = 1"
    by (simp add: computeJaroWinklerSimilarity_def)
next
  assume d: "set a \<inter> set b = {}"
  show "computeJaroWinklerSimilarity a b = 0"
  proof (cases "a = [] \<or> b = []")
    case True
    then show ?thesis by (auto simp: computeJaroWinklerSimilarity_def)
  next
    case False
    then have "a \<noteq> b" using d by auto
    then show ?thesis using matchLoop_disjoint[OF d] False
      by (auto simp: computeJaroWinklerSimilarity_def split: prod.splits)
  qed
next
  assume "a \<noteq> b \<and> snd (snd (matchLoop a b)) = 0"
  then show "computeJaroWinklerSimilarity a b = 0"
    by (auto simp: computeJaroWinklerSimilarity_def split: prod.splits)
qed

lemma matchLoop_ab_ba: "snd (snd (matchLoop ''abcdef'' ''fxyzwa'')) = 0"
  by code_simp

theorem jaro_winkler_identical_and_unmatched_witness:
  "computeJaroWinklerSimilarity ''mars'' ''mars'' = 1
   \<and> computeJaroWinklerSimilarity ''abc'' ''xyz'' = 0
   \<and> computeJaroWinklerSimilarity ''abcdef'' ''fxyzwa'' = 0"
  using jaro_winkler_identical_and_unmatched[of "''mars''" "''xyz''"]
        jaro_winkler_identical_and_unmatched[of "''abc''" "''xyz''"]
        jaro_winkler_identical_and_unmatched[of "''abcdef''" "''fxyzwa''"]
        matchLoop_ab_ba
  by simp

text \<open>
  Claim C8 as it is stated fails for the empty string: two identical empty strings have
  similarity 0, because the emptiness test comes before the identity test.
\<close>

theorem jaro_winkler_empty_counterexample:
  "[] = ([] :: string) \<and> computeJaroWinklerSimilarity [] [] = 0
   \<and> computeJaroWinklerSimilarity [] [] \<noteq> 1"
  by (simp add: computeJaroWinklerSimilarity_def)

section \<open>Properties of the token builder\<close>

lemma longestFirst_suffixes: "longestFirst suffixes"
  by (simp add: suffixes_def endsWith_def)

lemma endsWith_shorter:
  assumes "endsWith s x" "endsWith s y" "length x < length y"
  shows "endsWith y x"
proof -
  from assms have x: "x = drop (length s - length x) s" and y: "y = drop (length s - length y) s"
    and lx: "length x \<le> length s" and ly: "length y \<le> length s"
    by (simp_all add: endsWith_def)
  have "drop (length y - length x) y = drop (length y - length x) (drop (length s - length y) s)"
    using y by simp
  also have "\<dots> = drop (length s - length x) s"
    using assms(3) lx ly by simp
  finally show ?thesis using x assms(3) by (simp add: endsWith_def)
qed

lemma stripFirstSuffix_find:
  "stripFirstSuffix L s =
     (case find (strippable s) L of None \<Rightarrow> s | Some suf \<Rightarrow> sliceEnd s (length suf))"
  by (induction L) (auto simp: strippable_def)

lemma foldl_max_bound:
  "(\<forall>n \<in> set ns. n \<le> m) \<Longrightarrow> foldl max (m::nat) ns = m"
  by (induction ns) (auto simp: max_def)

lemma first_strippable_longest:
  assumes "longestFirst L" "filter (strippable s) L = e # es"
  shows "\<forall>y \<in> set es. length y \<le> length e"
  using assms
proof (induction L)
  case Nil
  then show ?case by simp
next
  case (Cons x xs)
  show ?case
  proof (cases "strippable s x")
    case True
    with Cons.prems have e: "e = x" and es: "es = filter (strippable s) xs" by auto
    show ?thesis
    proof
      fix y assume "y \<in> set es"
      then have yin: "y \<in> set xs" and ys: "strippable s y" using es by auto
      show "length y \<le> length e"
      proof (rule ccontr)
        assume "\<not> length y \<le> length e"
        then have lt: "length x < length y" using e by simp
        have "endsWith y x"
          using endsWith_shorter[of s x y] True ys lt by (simp add: strippable_def)
        moreover have "\<not> endsWith y x" using Cons.prems(1) yin lt by auto
        ultimately show False by blast
      qed
    qed
  next
    case False
    with Cons show ?thesis by auto
  qed
qed

lemma find_filter_head: "filter P L = e # es \<Longrightarrow> find P L = Some e"
  by (induction L) (auto split: if_splits)

lemma stripFirst_is_longest:
  assumes lf: "longestFirst L"
  shows "stripFirstSuffix L s =
     (case filter (strippable s) L of
        [] \<Rightarrow> s
      | e # es \<Rightarrow> sliceEnd s (foldl max (length e) (map length es)))"
proof (cases "filter (strippable s) L")
  case Nil
  then have "find (strippable s) L = None" by (simp add: find_None_iff filter_empty_conv)
  then show ?thesis using Nil by (simp add: stripFirstSuffix_find)
next
  case (Cons e es)
  then have "find (strippable s) L = Some e"
    by (rule find_filter_head)
  moreover have "foldl max (length e) (map length es) = length e"
    using first_strippable_longest[OF lf Cons] by (intro foldl_max_bound) auto
  ultimately show ?thesis using Cons by (simp add: stripFirstSuffix_find)
qed

lemma collapseIes_spec: "collapseIes s = spec_collapseLong s"
  by (auto simp: collapseIes_def spec_collapseLong_def)

lemma stemmedVariant_spec:
  "stemmedVariant token = spec_stripLongest (spec_collapseLong (stripPossessive token))"
  unfolding stemmedVariant_def stemBase_def spec_stripLongest_def collapseIes_spec
  by (rule stripFirst_is_longest[OF longestFirst_suffixes])

lemma replaceRuns_set:
  "c \<in> set (replaceRuns p b s) \<Longrightarrow> \<not> p c \<or> c = CHR '' ''"
  by (induction s arbitrary: b) (auto split: if_splits)

lemma splitRuns_set:
  "t \<in> set (splitRuns p cur b s) \<Longrightarrow> c \<in> set t \<Longrightarrow> c \<in> set cur \<or> (c \<in> set s \<and> \<not> p c)"
proof (induction s arbitrary: cur b)
  case Nil
  then show ?case by simp
next
  case (Cons a s)
  show ?case
  proof (cases "p a")
    case True
    then have "t = cur \<or> t \<in> set (splitRuns p cur True s) \<or> t \<in> set (splitRuns p [] True s)"
      using Cons.prems(1) by (auto split: if_splits)
    then show ?thesis using Cons.IH Cons.prems(2) by fastforce
  next
    case False
    then have "t \<in> set (splitRuns p (cur @ [a]) False s)" using Cons.prems(1) by simp
    from Cons.IH[OF this Cons.prems(2)] False show ?thesis by auto
  qed
qed

lemma space_isWhiteSpace: "isWhiteSpace (CHR '' '')"
  by (simp add: isWhiteSpace_def)

lemma rawTokens_alnum:
  assumes "token \<in> set (rawTokens ttl descr m)" "c \<in> set token"
  shows "isLowerAlnum c"
proof -
  let ?q = "\<lambda>c. \<not> isLowerAlnum c \<and> \<not> isWhiteSpace c"
  let ?t = "replaceRuns ?q False (replaceUrls 0 (toLowerCase (ttl @ '' '' @ descr)))"
  from assms(1) have "token \<in> set (splitRuns isWhiteSpace [] False ?t)"
    by (simp add: rawTokens_def Let_def)
  from splitRuns_set[OF this assms(2)] have "c \<in> set ?t" and ws: "\<not> isWhiteSpace c" by auto
  from replaceRuns_set[OF this(1)] have "\<not> ?q c \<or> c = CHR '' ''" .
  with ws space_isWhiteSpace show ?thesis by auto
qed

lemma rawTokens_length:
  "token \<in> set (rawTokens ttl descr m) \<Longrightarrow> 2 \<le> length token"
  by (cases m)
     (auto simp: rawTokens_def Let_def getTokenMinLength_def TOKEN_MIN_LENGTH_STRICT_def
        TOKEN_MIN_LENGTH_DEFAULT_def)

lemma endsWith_set: "endsWith s suf \<Longrightarrow> set suf \<subseteq> set s"
  by (metis endsWith_def set_drop_subset)

lemma apostrophe_not_alnum: "\<not> isLowerAlnum (CHR 0x27)"
  by (simp add: isLowerAlnum_def)

lemma stripPossessive_alnum:
  "\<forall>c \<in> set s. isLowerAlnum c \<Longrightarrow> stripPossessive s = s"
  using endsWith_set apostrophe_not_alnum
  by (fastforce simp: stripPossessive_def)

lemma set_setAdd: "set (setAdd xs x) = insert x (set xs)"
  by (auto simp: setAdd_def)

lemma spec_collapseLong_nonempty: "s \<noteq> [] \<Longrightarrow> spec_collapseLong s \<noteq> []"
  by (simp add: spec_collapseLong_def)

lemma stripFirstSuffix_nonempty: "s \<noteq> [] \<Longrightarrow> stripFirstSuffix L s \<noteq> []"
  by (induction L) (auto simp: sliceEnd_def)

text \<open>
  Claim C5, as the code has it. In strict mode the stemmed variant of a raw token is
  obtained by collapsing a trailing \<^verbatim>\<open>ies\<close> or \<^verbatim>\<open>ied\<close> to \<^verbatim>\<open>y\<close> when the token has more
  than four characters, and then stripping the longest suffix of the fixed list that
  matches and leaves a stem of at least three characters; the variants of the token are
  the token, the collapsed token and this stem.
\<close>

theorem stemmed_variant_of_raw_token:
  assumes "token \<in> set (rawTokens ttl descr ModeStrict)"
  shows "stemmedVariant token = spec_stripLongest (spec_collapseLong token)
         \<and> set (normalizeTokenVariants token ModeStrict)
             = {token, spec_collapseLong token, spec_stripLongest (spec_collapseLong token)}"
proof -
  have sp: "stripPossessive token = token"
    using rawTokens_alnum[OF assms] by (intro stripPossessive_alnum) blast
  have ne: "token \<noteq> []" using rawTokens_length[OF assms] by auto
  have st: "stemmedVariant token = spec_stripLongest (spec_collapseLong token)"
    using stemmedVariant_spec[of token] sp by simp
  have base: "stemBase token = spec_collapseLong token"
    by (simp add: stemBase_def sp collapseIes_spec)
  have "stemmedVariant token \<noteq> []"
    unfolding stemmedVariant_def base
    by (rule stripFirstSuffix_nonempty[OF spec_collapseLong_nonempty[OF ne]])
  then have "set (normalizeTokenVariants token ModeStrict)
               = {token, stemBase token, stemmedVariant token}"
    using ne spec_collapseLong_nonempty[OF ne] base
    by (auto simp: normalizeTokenVariants_def set_setAdd)
  then show ?thesis using st base by simp
qed

lemma rawTokens_parties: "rawTokens ''Parties'' [] ModeStrict = [''parties'']"
  by code_simp

lemma spec_parties: "spec_stripLongest (spec_collapseLong ''parties'') = ''party''"
  by (simp add: spec_collapseLong_def spec_stripLongest_def strippable_def endsWith_def
        sliceEnd_def suffixes_def)

theorem stemmed_variant_of_raw_token_witness:
  "''parties'' \<in> set (rawTokens ''Parties'' [] ModeStrict)
   \<and> stemmedVariant ''parties'' = ''party''"
proof -
  have m: "''parties'' \<in> set (rawTokens ''Parties'' [] ModeStrict)"
    by (simp add: rawTokens_parties)
  show ?thesis using stemmed_variant_of_raw_token[OF m] m spec_parties by simp
qed

text \<open>
  Claim C5 as it is stated, with the collapse applied to every token that ends in
  \<^verbatim>\<open>ies\<close> or \<^verbatim>\<open>ied\<close>, fails on a token of four characters: \<^verbatim>\<open>ties\<close> is a raw token
  whose stemmed variant is \<^verbatim>\<open>tie\<close>, where the stated rule gives \<^verbatim>\<open>ty\<close>.
\<close>

lemma rawTokens_ties: "rawTokens ''Ties'' [] ModeStrict = [''ties'']"
  by code_simp

theorem stemmed_variant_short_counterexample:
  "''ties'' \<in> set (rawTokens ''Ties'' [] ModeStrict)
   \<and> stemmedVariant ''ties'' = ''tie'' \<and> spec_stem ''ties'' = ''ty''
   \<and> stemmedVariant ''ties'' \<noteq> spec_stem ''ties''"
  by (simp add: rawTokens_ties stemmedVariant_def stemBase_def stripPossessive_def
        collapseIes_def spec_stem_def spec_collapse_def spec_stripLongest_def strippable_def
        endsWith_def sliceEnd_def suffixes_def)

section \<open>Properties of the aggregator\<close>

lemma mergeInto_frame:
  "title (data (mergeInto e c en)) = title (data e)
   \<and> url (data (mergeInto e c en)) = url (data e)
   \<and> source (data (mergeInto e c en)) = source (data e)
   \<and> publishedAt (data (mergeInto e c en)) = publishedAt (data e)"
  by (simp add: mergeInto_def Let_def backfillDescription_def backfillKeyword_def
        backfillQueryUsed_def backfillSearchQuery_def)

lemma mergeInto_provenance:
  "(truthy (keyword (data e)) \<longrightarrow> keyword (data (mergeInto e c en)) = keyword (data e))
   \<and> (truthy (queryUsed (data e)) \<longrightarrow> queryUsed (data (mergeInto e c en)) = queryUsed (data e))
   \<and> (truthy (searchQuery (data e)) \<longrightarrow> searchQuery (data (mergeInto e c en)) = searchQuery (data e))"
  by (simp add: mergeInto_def Let_def backfillDescription_def backfillKeyword_def
        backfillQueryUsed_def backfillSearchQuery_def)

lemma mergeInto_description:
  "description (data (mergeInto e c en)) =
     (if length (description c) > length (description (data e)) then description c
      else description (data e))"
  by (auto simp: mergeInto_def Let_def backfillDescription_def backfillKeyword_def
        backfillQueryUsed_def backfillSearchQuery_def)

lemma scanAggregated_shape:
  "scanAggregated plat options c en agg = Some agg' \<Longrightarrow>
     length agg' = length agg
     \<and> (\<forall>i < length agg. agg' ! i = agg ! i \<or> agg' ! i = mergeInto (agg ! i) c en)"
proof (induction agg arbitrary: agg')
  case Nil
  then show ?case by simp
next
  case (Cons e rest)
  show ?case
  proof (cases "areHeadlinesNearDuplicate e en options")
    case True
    with Cons.prems have "agg' = e # rest \<or> agg' = mergeInto e c en # rest"
      by (auto split: if_splits)
    then show ?thesis by (auto simp: nth_Cons split: nat.splits)
  next
    case False
    with Cons.prems obtain r' where r': "scanAggregated plat options c en rest = Some r'"
      and agg': "agg' = e # r'" by auto
    from Cons.IH[OF r'] agg' show ?thesis by (auto simp: nth_Cons split: nat.splits)
  qed
qed

lemma addHeadlineIfUnique_shape:
  assumes "addHeadlineIfUnique plat agg c options = (agg', flag)" "i < length agg"
  shows "i < length agg'
         \<and> (agg' ! i = agg ! i
            \<or> agg' ! i = mergeInto (agg ! i) c (createHeadlineCandidate plat c options))"
proof (cases "isExcluded options (createHeadlineCandidate plat c options)")
  case True
  with assms show ?thesis by (simp add: addHeadlineIfUnique_def Let_def)
next
  case False
  show ?thesis
  proof (cases "scanAggregated plat options c (createHeadlineCandidate plat c options) agg")
    case None
    with False assms show ?thesis by (auto simp: addHeadlineIfUnique_def Let_def nth_append)
  next
    case (Some a)
    with False assms have "agg' = a" by (simp add: addHeadlineIfUnique_def Let_def)
    with scanAggregated_shape[OF Some] assms(2) show ?thesis by auto
  qed
qed

text \<open>
  Claim C7. Whatever a call of \<open>addHeadlineIfUnique\<close> does to an existing cluster, the title,
  URL, source and publication date of its primary stay as they were, a non-empty keyword,
  \<^verbatim>\<open>queryUsed\<close> or \<^verbatim>\<open>searchQuery\<close> of the primary is kept, and the description of the
  primary changes only to an incoming description that is strictly longer.
\<close>

theorem merge_keeps_primary:
  assumes "addHeadlineIfUnique plat aggregated c options = (aggregated', flag)"
    and "i < length aggregated"
  shows "i < length aggregated'
     \<and> title (data (aggregated' ! i)) = title (data (aggregated ! i))
     \<and> url (data (aggregated' ! i)) = url (data (aggregated ! i))
     \<and> source (data (aggregated' ! i)) = source (data (aggregated ! i))
     \<and> publishedAt (data (aggregated' ! i)) = publishedAt (data (aggregated ! i))
     \<and> (truthy (keyword (data (aggregated ! i)))
          \<longrightarrow> keyword (data (aggregated' ! i)) = keyword (data (aggregated ! i)))
     \<and> (truthy (queryUsed (data (aggregated ! i)))
          \<longrightarrow> queryUsed (data (aggregated' ! i)) = queryUsed (data (aggregated ! i)))
     \<and> (truthy (searchQuery (data (aggregated ! i)))
          \<longrightarrow> searchQuery (data (aggregated' ! i)) = searchQuery (data (aggregated ! i)))
     \<and> (description (data (aggregated' ! i)) \<noteq> description (data (aggregated ! i))
          \<longrightarrow> length (description c) > length (description (data (aggregated ! i)))
              \<and> description (data (aggregated' ! i)) = description c)"
proof -
  let ?en = "createHeadlineCandidate plat c options"
  from addHeadlineIfUnique_shape[OF assms]
  have len: "i < length aggregated'"
    and alt: "aggregated' ! i = aggregated ! i \<or> aggregated' ! i = mergeInto (aggregated ! i) c ?en"
    by auto
  from alt show ?thesis
  proof
    assume "aggregated' ! i = aggregated ! i"
    with len show ?thesis by simp
  next
    assume m: "aggregated' ! i = mergeInto (aggregated ! i) c ?en"
    show ?thesis
      using len mergeInto_frame[of "aggregated ! i" c ?en]
        mergeInto_provenance[of "aggregated ! i" c ?en]
        mergeInto_description[of "aggregated ! i" c ?en]
      unfolding m by (simp split: if_splits)
  qed
qed


lemma marsLong_merge:
  "addHeadlineIfUnique refPlatform
     [createHeadlineCandidate refPlatform marsNoUrl defaultOptions] marsLong defaultOptions
   = ([\<lparr> data = marsNoUrl\<lparr> description := ''Ice below the surface'', keyword := Some ''mars'' \<rparr>,
         normalizedUrl = [], normalizedTitle = ''mars rover finds water'',
         tokenSet = [''mars'', ''rover'', ''finds'', ''water'', ''ice'', ''below'', ''the'',
                     ''surface''],
         normalizedDescription = ''ice below the surface'',
         related = [relatedOf marsLong] \<rparr>], False)"
  by code_simp

lemma data_createHeadlineCandidate: "data (createHeadlineCandidate plat h options) = h"
  by (simp add: createHeadlineCandidate_def)

theorem merge_keeps_primary_witness:
  "title (data (hd (fst (addHeadlineIfUnique refPlatform
       [createHeadlineCandidate refPlatform marsNoUrl defaultOptions] marsLong defaultOptions))))
     = ''Mars rover finds water''
   \<and> source (data (hd (fst (addHeadlineIfUnique refPlatform
       [createHeadlineCandidate refPlatform marsNoUrl defaultOptions] marsLong defaultOptions))))
     = ''A''
   \<and> description (data (hd (fst (addHeadlineIfUnique refPlatform
       [createHeadlineCandidate refPlatform marsNoUrl defaultOptions] marsLong defaultOptions))))
     = ''Ice below the surface''"
  using merge_keeps_primary[OF marsLong_merge, of 0]
  unfolding marsLong_merge
  by (simp add: data_createHeadlineCandidate marsNoUrl_def marsLong_def headline_def)

lemma collectExcludeUrls_nonempty:
  "[] \<notin> set acc \<Longrightarrow> [] \<notin> set (collectExcludeUrls plat acc entries)"
  by (induction plat acc entries rule: collectExcludeUrls.induct) (auto simp: Let_def)

lemma normalizeExcludeUrls_nonempty:
  "normalizeExcludeUrls plat raw = Inr urls \<Longrightarrow> [] \<notin> set urls"
  using collectExcludeUrls_nonempty[of "[]"]
  by (cases raw) (auto simp: normalizeExcludeUrls_def)

text \<open>
  Claim C6. In a run whose excluded URLs, as the handler normalizes them, contain \<open>u\<close>, a
  record whose URL normalizes to \<open>u\<close> leaves the list of clusters as it is: no cluster is
  created, no related article is appended and no cluster is enriched.
\<close>

theorem excluded_record_is_dropped:
  assumes "normalizeExcludeUrls plat raw = Inr excludeUrls"
    and "u \<in> set excludeUrls"
    and "normalizeUrlForComparison plat (url record) = u"
  shows "addHeadlineIfUnique plat aggregated record (runOptions m excludeUrls) = (aggregated, False)"
proof -
  have "u \<noteq> []" using normalizeExcludeUrls_nonempty[OF assms(1)] assms(2) by auto
  moreover have "excludedUrls (runOptions m excludeUrls) = Some excludeUrls"
    using assms(2) by (cases excludeUrls) (auto simp: runOptions_def)
  ultimately show ?thesis using assms(2,3)
    by (simp add: addHeadlineIfUnique_def Let_def isExcluded_def createHeadlineCandidate_def)
qed


lemma exclude_example:
  "normalizeExcludeUrls refPlatform (RawText ''https://example.com/a, '')
     = Inr [''https://example.com/a'']"
  by code_simp

lemma marsWithUrl_normalized:
  "normalizeUrlForComparison refPlatform (url marsWithUrl) = ''https://example.com/a''"
  by code_simp

theorem excluded_record_is_dropped_witness:
  "addHeadlineIfUnique refPlatform
     [createHeadlineCandidate refPlatform marsNoUrl defaultOptions] marsWithUrl
     (runOptions ModeDefault [''https://example.com/a''])
   = ([createHeadlineCandidate refPlatform marsNoUrl defaultOptions], False)"
  using excluded_record_is_dropped[OF exclude_example _ marsWithUrl_normalized]
  by simp

lemma foldl_setAdd_same: "set ys \<subseteq> set xs \<Longrightarrow> foldl setAdd xs ys = xs"
  by (induction ys) (auto simp: setAdd_def)

lemma mergeInto_self:
  "mergeInto (createHeadlineCandidate plat r options) r (createHeadlineCandidate plat r options)
     = (createHeadlineCandidate plat r options)\<lparr> related := [relatedOf r] \<rparr>"
  by (simp add: mergeInto_def Let_def backfillDescription_def backfillKeyword_def
        backfillQueryUsed_def backfillSearchQuery_def createHeadlineCandidate_def
        foldl_setAdd_same)

lemma nearDuplicate_self:
  "normalizedUrl c \<noteq> [] \<or> normalizedTitle c \<noteq> [] \<or> normalizedDescription c \<noteq> []
     \<Longrightarrow> areHeadlinesNearDuplicate c c options"
  by (auto simp: areHeadlinesNearDuplicate_def)

lemma isRepeatedUrl_self:
  "isRepeatedUrl plat (createHeadlineCandidate plat r options) r
     = (normalizedUrl (createHeadlineCandidate plat r options) \<noteq> [])"
  by (auto simp: isRepeatedUrl_def Let_def createHeadlineCandidate_def)

text \<open>
  Claim C2, as the code has it. A record that is not excluded and whose normalized URL,
  title or description is not empty, fed twice to an empty aggregator, yields exactly one
  cluster. Its related-article list holds the second occurrence when the normalized URL of
  the record is empty, and is empty otherwise: the second occurrence is then dropped as a
  repeat of the URL of the cluster.
\<close>

theorem same_record_twice:
  assumes "c = createHeadlineCandidate plat r options"
    and "\<not> isExcluded options c"
    and "normalizedUrl c \<noteq> [] \<or> normalizedTitle c \<noteq> [] \<or> normalizedDescription c \<noteq> []"
  shows "feedAll plat options [] [r, r] =
           [c\<lparr> related := (if normalizedUrl c = [] then [relatedOf r] else []) \<rparr>]"
proof -
  have first: "addHeadlineIfUnique plat [] r options = ([c], True)"
    using assms(1,2) by (simp add: addHeadlineIfUnique_def Let_def)
  have scan: "scanAggregated plat options r c [c] =
                Some [if normalizedUrl c = [] then c\<lparr> related := [relatedOf r] \<rparr> else c]"
    using nearDuplicate_self[OF assms(3), of options] isRepeatedUrl_self[of plat r options]
      mergeInto_self[of plat r options] assms(1) by simp
  have rel: "related c = []" using assms(1) by (simp add: createHeadlineCandidate_def)
  have second: "addHeadlineIfUnique plat [c] r options =
                  ([c\<lparr> related := (if normalizedUrl c = [] then [relatedOf r] else []) \<rparr>], False)"
    using assms(1,2) scan rel
    by (auto simp: addHeadlineIfUnique_def Let_def)
  show ?thesis by (simp add: feedAll_def first second)
qed

lemma marsWithUrl_candidate:
  "createHeadlineCandidate refPlatform marsWithUrl defaultOptions =
     \<lparr> data = marsWithUrl, normalizedUrl = ''https://example.com/a'',
       normalizedTitle = ''mars rover finds water'',
       tokenSet = [''mars'', ''rover'', ''finds'', ''water''],
       normalizedDescription = [], related = [] \<rparr>"
  by code_simp

lemma marsNoUrl_candidate:
  "createHeadlineCandidate refPlatform marsNoUrl defaultOptions =
     \<lparr> data = marsNoUrl, normalizedUrl = [],
       normalizedTitle = ''mars rover finds water'',
       tokenSet = [''mars'', ''rover'', ''finds'', ''water''],
       normalizedDescription = [], related = [] \<rparr>"
  by code_simp

lemma blank_candidate:
  "createHeadlineCandidate refPlatform blankRecord defaultOptions =
     \<lparr> data = blankRecord, normalizedUrl = [],
       normalizedTitle = [],
       tokenSet = [],
       normalizedDescription = [], related = [] \<rparr>"
  by code_simp

lemma not_excluded_default: "\<not> isExcluded defaultOptions c"
  by (simp add: isExcluded_def defaultOptions_def)

theorem same_record_twice_witness:
  "map (length \<circ> related) (feedAll refPlatform defaultOptions [] [marsNoUrl, marsNoUrl]) = [1]
   \<and> map (length \<circ> related) (feedAll refPlatform defaultOptions [] [marsWithUrl, marsWithUrl]) = [0]"
  using same_record_twice[OF refl not_excluded_default, of refPlatform marsNoUrl]
        same_record_twice[OF refl not_excluded_default, of refPlatform marsWithUrl]
  by (simp add: marsNoUrl_candidate marsWithUrl_candidate)

text \<open>
  Claim C2 as it is stated fails: a record with a URL, fed twice, leaves one cluster with
  no related article, and a record with no URL, title and description leaves two clusters.
\<close>

theorem same_record_twice_counterexample:
  "map (length \<circ> related) (feedAll refPlatform defaultOptions [] [marsWithUrl, marsWithUrl]) = [0]
   \<and> length (feedAll refPlatform defaultOptions [] [blankRecord, blankRecord]) = 2"
  by code_simp

section \<open>Properties of the ranker\<close>

lemma compareScored_le:
  "compareScored a b \<le> 0 \<longleftrightarrow> ranksBefore a b"
  by (cases "ageHours (details (ranking a))"; cases "ageHours (details (ranking b))")
     (auto simp: compareScored_def ranksBefore_def ageBefore_def signOf_def Let_def)

lemma ageBefore_trans: "ageBefore x y \<Longrightarrow> ageBefore y z \<Longrightarrow> ageBefore x z"
  by (cases x; cases y; cases z) (auto simp: ageBefore_def)

lemma ageBefore_irrefl: "\<not> ageBefore x x"
  by (cases x) (auto simp: ageBefore_def)

lemma ageBefore_total: "ageBefore x y \<or> x = y \<or> ageBefore y x"
  by (cases x; cases y) (auto simp: ageBefore_def)

lemma ranksBefore_total: "ranksBefore a b \<or> ranksBefore b a"
  using ageBefore_total[of "ageHours (details (ranking a))" "ageHours (details (ranking b))"]
  by (auto simp: ranksBefore_def)

lemma ranksBefore_trans:
  assumes "ranksBefore a b" "ranksBefore b c"
  shows "ranksBefore a c"
proof -
  let ?sa = "score (ranking a)" and ?sb = "score (ranking b)" and ?sc = "score (ranking c)"
  let ?ga = "ageHours (details (ranking a))" and ?gb = "ageHours (details (ranking b))"
    and ?gc = "ageHours (details (ranking c))"
  from assms have sab: "?sb \<le> ?sa" and sbc: "?sc \<le> ?sb" by (auto simp: ranksBefore_def)
  show ?thesis
  proof (cases "?sc < ?sa")
    case True
    then show ?thesis by (simp add: ranksBefore_def)
  next
    case False
    with sab sbc have eq: "?sa = ?sb" "?sb = ?sc" by auto
    with assms have ab: "ageBefore ?ga ?gb \<or> (?ga = ?gb \<and> index a \<le> index b)"
      and bc: "ageBefore ?gb ?gc \<or> (?gb = ?gc \<and> index b \<le> index c)"
      by (auto simp: ranksBefore_def)
    then have "ageBefore ?ga ?gc \<or> (?ga = ?gc \<and> index a \<le> index c)"
      using ageBefore_trans[of ?ga ?gb ?gc] by auto
    with eq show ?thesis by (simp add: ranksBefore_def)
  qed
qed

lemma set_insertSorted: "set (insertSorted cmp x ys) = insert x (set ys)"
  by (induction ys) auto

lemma mset_insertSorted: "mset (insertSorted cmp x ys) = add_mset x (mset ys)"
  by (induction ys) auto

lemma mset_sortWith: "mset (sortWith cmp xs) = mset xs"
  by (induction xs) (auto simp: sortWith_def mset_insertSorted)

lemma sorted_insertSorted:
  assumes "sorted_wrt ranksBefore ys"
  shows "sorted_wrt ranksBefore (insertSorted compareScored x ys)"
  using assms
proof (induction ys)
  case Nil
  then show ?case by simp
next
  case (Cons y ys)
  show ?case
  proof (cases "compareScored x y \<le> 0")
    case True
    then have xy: "ranksBefore x y" by (simp add: compareScored_le)
    then have "\<forall>z \<in> set ys. ranksBefore x z"
      using Cons.prems ranksBefore_trans by auto
    with True xy Cons.prems show ?thesis by simp
  next
    case False
    then have "ranksBefore y x" using ranksBefore_total[of x y] by (simp add: compareScored_le)
    with False Cons show ?thesis by (auto simp: set_insertSorted)
  qed
qed

lemma sorted_sortWith: "sorted_wrt ranksBefore (sortWith compareScored xs)"
  by (induction xs) (auto simp: sortWith_def sorted_insertSorted)


lemma scoreCandidates_length:
  "length (scoreCandidates plat clock sf tf idx t cs) = length cs"
  by (induction cs arbitrary: idx t) (auto split: prod.splits)

lemma scoreCandidate_fields:
  "scoreCandidate plat clock sf tf c idx t = (e, t') \<Longrightarrow> candidate e = c \<and> index e = idx"
  by (auto simp: scoreCandidate_def Let_def split: prod.splits)

lemma scoreCandidates_nth:
  "i < length cs \<Longrightarrow>
     candidate (scoreCandidates plat clock sf tf idx t cs ! i) = cs ! i
     \<and> index (scoreCandidates plat clock sf tf idx t cs ! i) = idx + i"
proof (induction cs arbitrary: idx t i)
  case Nil
  then show ?case by simp
next
  case (Cons c cs)
  obtain e t' where e: "scoreCandidate plat clock sf tf c idx t = (e, t')" by fastforce
  show ?case
  proof (cases i)
    case 0
    with e scoreCandidate_fields[OF e] show ?thesis by simp
  next
    case (Suc k)
    with Cons.prems have "k < length cs" by simp
    from Cons.IH[OF this, of "Suc idx" t'] e Suc show ?thesis by simp
  qed
qed

lemma scoredSorted_mset:
  "mset (scoredSorted plat clock cs) =
     mset (scoreCandidates plat clock (fst (countFrequencies cs)) (snd (countFrequencies cs)) 0 0 cs)"
  by (simp add: scoredSorted_def mset_sortWith split: prod.splits)

lemma scoredSorted_sorted: "sorted_wrt ranksBefore (scoredSorted plat clock cs)"
  by (simp add: scoredSorted_def sorted_sortWith split: prod.splits)

lemma scoredSorted_length: "length (scoredSorted plat clock cs) = length cs"
  using scoredSorted_mset[of plat clock cs] scoreCandidates_length
  by (metis size_mset)


lemma scoreCandidates_index:
  "map index (scoreCandidates plat clock sf tf idx t cs) = [idx..<idx + length cs]"
proof (induction cs arbitrary: idx t)
  case Nil
  then show ?case by simp
next
  case (Cons c cs)
  obtain e t' where e: "scoreCandidate plat clock sf tf c idx t = (e, t')" by fastforce
  with scoreCandidate_fields[OF e] Cons.IH[of "Suc idx" t'] show ?case
    by (simp add: upt_rec)
qed

lemma scoredSorted_distinct: "distinct (map index (scoredSorted plat clock cs))"
proof -
  have "mset (map index (scoredSorted plat clock cs)) = mset [0..<length cs]"
    using scoredSorted_mset[of plat clock cs] scoreCandidates_index[of plat clock _ _ 0 0 cs]
    by (metis add_0 mset_map)
  then show ?thesis by (metis distinct_upt mset_eq_imp_distinct_iff)
qed


lemma sorted_wrt_unique:
  assumes "sorted_wrt R xs" "sorted_wrt R ys" "mset xs = mset ys"
    and "\<And>a b. a \<in> set xs \<Longrightarrow> b \<in> set xs \<Longrightarrow> R a b \<Longrightarrow> R b a \<Longrightarrow> a = b"
  shows "xs = ys"
  using assms
proof (induction xs arbitrary: ys)
  case Nil
  then show ?case by simp
next
  case (Cons x xs)
  then obtain y ys' where ys: "ys = y # ys'" by (cases ys) auto
  have sets: "set (x # xs) = set (y # ys')" using mset_eq_setD[OF Cons.prems(3)] ys by simp
  have xy: "x = y"
  proof (rule ccontr)
    assume ne: "x \<noteq> y"
    then have yin: "y \<in> set xs" and xin: "x \<in> set ys'" using sets by auto
    then have "R x y" "R y x" using Cons.prems(1,2) ys by auto
    moreover have "x \<in> set (x # xs)" "y \<in> set (x # xs)" using yin by simp_all
    ultimately have "x = y" by (rule Cons.prems(4)[rotated 2])
    with ne show False by simp
  qed
  have "xs = ys'"
  proof (rule Cons.IH)
    show "sorted_wrt R xs" using Cons.prems(1) by simp
    show "sorted_wrt R ys'" using Cons.prems(2) ys by simp
    show "mset xs = mset ys'" using Cons.prems(3) ys xy by simp
    fix a b assume "a \<in> set xs" "b \<in> set xs" "R a b" "R b a"
    then show "a = b" using Cons.prems(4)[of a b] by simp
  qed
  with xy ys show ?case by simp
qed

lemma ranksBefore_antisym:
  assumes "ranksBefore a b" "ranksBefore b a"
  shows "index a = index b"
proof -
  let ?ga = "ageHours (details (ranking a))" and ?gb = "ageHours (details (ranking b))"
  from assms have eq: "score (ranking a) = score (ranking b)"
    by (auto simp: ranksBefore_def)
  have no: "\<not> (ageBefore ?ga ?gb \<and> ageBefore ?gb ?ga)"
    using ageBefore_trans[of ?ga ?gb ?ga] ageBefore_irrefl[of ?ga] by blast
  from assms eq have "ageBefore ?ga ?gb \<or> (?ga = ?gb \<and> index a \<le> index b)"
    and "ageBefore ?gb ?ga \<or> (?gb = ?ga \<and> index b \<le> index a)"
    by (simp_all add: ranksBefore_def)
  with no ageBefore_irrefl[of ?ga] ageBefore_irrefl[of ?gb] show ?thesis
    by (cases "ageBefore ?ga ?gb"; cases "ageBefore ?gb ?ga") auto
qed

text \<open>
  The comparator orders the scored array strictly, so the array has only one sorted
  arrangement: whatever algorithm \<^verbatim>\<open>Array.prototype.sort\<close> runs, it returns the list
  that \<open>sortWith\<close> computes.
\<close>

lemma sorted_order_unique:
  assumes "mset ys = mset (scoredSorted plat clock cs)" "sorted_wrt ranksBefore ys"
  shows "ys = scoredSorted plat clock cs"
proof -
  let ?s = "scoredSorted plat clock cs"
  have inj: "inj_on index (set ?s)"
    using scoredSorted_distinct[of plat clock cs] by (simp only: distinct_map)
  have "?s = ys"
  proof (rule sorted_wrt_unique[OF scoredSorted_sorted assms(2) assms(1)[symmetric]])
    fix a b assume ab: "a \<in> set ?s" "b \<in> set ?s" and r: "ranksBefore a b" "ranksBefore b a"
    from r have "index a = index b" by (rule ranksBefore_antisym)
    then show "a = b" by (rule inj_onD[OF inj _ ab])
  qed
  then show ?thesis by simp
qed


lemma recency_bounds:
  "computeRecencyScore plat clock p t = ((s, age), t') \<Longrightarrow> 0 \<le> s \<and> s \<le> 1"
  by (auto simp: computeRecencyScore_def Let_def min_def max_def split: if_splits option.splits)

lemma sourceDiversity_bounds:
  "0 \<le> computeSourceDiversityScore n \<and> computeSourceDiversityScore n \<le> 1"
  by (auto simp: computeSourceDiversityScore_def divide_le_eq)

lemma topicCoverage_bounds:
  "computeTopicCoverageScore ts tf = (s, r) \<Longrightarrow> 0 \<le> s \<and> s \<le> 1"
proof -
  assume a: "computeTopicCoverageScore ts tf = (s, r)"
  let ?u = "length (filter (\<lambda>token. (case tf token of None \<Rightarrow> 0 | Some n \<Rightarrow> n) \<le> 1) ts)"
  have "?u \<le> length ts" by (rule length_filter_le)
  then have "?u \<le> max 1 (length ts)" by (rule order_trans) (rule max.cobounded2)
  then have "(of_nat ?u :: rat) \<le> of_nat (max 1 (length ts))" by (rule of_nat_mono)
  moreover have "0 < max 1 (length ts)" by (rule less_le_trans[OF zero_less_one max.cobounded1])
  then have "(0 :: rat) < of_nat (max 1 (length ts))" by (simp only: of_nat_0_less_iff)
  ultimately have "(of_nat ?u :: rat) / of_nat (max 1 (length ts)) \<le> 1"
    by (simp add: divide_le_eq del: of_nat_max)
  moreover have "0 \<le> (of_nat ?u :: rat) / of_nat (max 1 (length ts))" by simp
  ultimately show ?thesis using a
    by (auto simp: computeTopicCoverageScore_def Let_def simp del: of_nat_max split: if_splits)
qed

lemma foldl_setAdd_length: "length xs \<le> length (foldl setAdd xs ys)"
proof (induction ys arbitrary: xs)
  case Nil
  then show ?case by simp
next
  case (Cons y ys)
  have "length xs \<le> length (setAdd xs y)" by (simp add: setAdd_def)
  also have "\<dots> \<le> length (foldl setAdd (setAdd xs y) ys)" by (rule Cons.IH)
  finally show ?case by simp
qed

lemma support_formula_bounds:
  "0 \<le> x \<Longrightarrow> 0 \<le> y \<Longrightarrow>
     0 \<le> min 1 ((min 1 x + min 1 y) / 2) \<and> min 1 ((min 1 x + min 1 y) / 2) \<le> (1 :: rat)"
  by (auto simp: min_def)

lemma clusterSupport_bounds:
  assumes "computeClusterSupportScore c = (s, m, u)"
  shows "0 \<le> s \<and> s \<le> 1"
proof -
  let ?sources = "foldl setAdd [sourceKeyOf (source (data c))]
                    (map (\<lambda>article. sourceKeyOf (rel_source article)) (related c))"
  define x :: rat where "x = (of_nat (max 1 (length (related c) + 1)) - 1) / 7"
  define y :: rat where "y = (of_nat (length ?sources) - 1) / 4"
  have "1 \<le> length ?sources"
    using foldl_setAdd_length[of "[sourceKeyOf (source (data c))]"] by simp
  then have "(1 :: rat) \<le> of_nat (length ?sources)" by simp
  then have y: "0 \<le> y" unfolding y_def by simp
  have x: "0 \<le> x" unfolding x_def by simp
  have "fst (computeClusterSupportScore c) = min 1 ((min 1 x + min 1 y) / 2)"
    unfolding x_def y_def
    by (simp add: computeClusterSupportScore_def Let_def CLUSTER_SIZE_FULL_SCORE_def
          CLUSTER_SOURCES_FULL_SCORE_def setAdd_def)
  then have "s = min 1 ((min 1 x + min 1 y) / 2)" using assms by simp
  then show ?thesis using support_formula_bounds[OF x y] by simp
qed

lemma scoreCandidate_bounds:
  assumes "scoreCandidate plat clock sf tf c idx t = (e, t')"
  shows "0 \<le> recency (components (ranking e)) \<and> recency (components (ranking e)) \<le> 1
    \<and> 0 \<le> sourceDiversity (components (ranking e)) \<and> sourceDiversity (components (ranking e)) \<le> 1
    \<and> 0 \<le> topicCoverage (components (ranking e)) \<and> topicCoverage (components (ranking e)) \<le> 1
    \<and> 0 \<le> clusterSupport (components (ranking e)) \<and> clusterSupport (components (ranking e)) \<le> 1
    \<and> score (ranking e) =
        recency (components (ranking e)) * (45 / 100)
        + sourceDiversity (components (ranking e)) * (20 / 100)
        + topicCoverage (components (ranking e)) * (20 / 100)
        + clusterSupport (components (ranking e)) * (25 / 100)"
proof -
  obtain rs age t1 where r: "computeRecencyScore plat clock (publishedAt (data c)) t = ((rs, age), t1)"
    by (metis prod.exhaust)
  obtain ts tr where tp: "computeTopicCoverageScore (tokenSet c) tf = (ts, tr)" by fastforce
  obtain cs m u where cl: "computeClusterSupportScore c = (cs, m, u)" by (metis prod.exhaust)
  from assms r tp cl show ?thesis
    using recency_bounds[OF r] topicCoverage_bounds[OF tp] clusterSupport_bounds[OF cl]
      sourceDiversity_bounds
    by (auto simp: scoreCandidate_def Let_def RANKING_RECENCY_WEIGHT_def RANKING_SOURCE_WEIGHT_def
          RANKING_TOPIC_WEIGHT_def RANKING_CLUSTER_WEIGHT_def)
qed

lemma scoreCandidates_bounds:
  assumes "e \<in> set (scoreCandidates plat clock sf tf idx t cs)"
  shows "\<exists>c i t0 t1. scoreCandidate plat clock sf tf c i t0 = (e, t1)"
  using assms
proof (induction cs arbitrary: idx t)
  case Nil
  then show ?case by simp
next
  case (Cons c cs)
  obtain e0 t' where e0: "scoreCandidate plat clock sf tf c idx t = (e0, t')" by fastforce
  with Cons.prems have "e = e0 \<or> e \<in> set (scoreCandidates plat clock sf tf (Suc idx) t' cs)"
    by simp
  then show ?case using e0 Cons.IH by blast
qed

lemma scoredSorted_origin:
  assumes "e \<in> set (scoredSorted plat clock cs)"
  shows "\<exists>sf tf c i t0 t1. scoreCandidate plat clock sf tf c i t0 = (e, t1)"
proof -
  from assms have "e \<in> set (scoreCandidates plat clock (fst (countFrequencies cs))
                               (snd (countFrequencies cs)) 0 0 cs)"
    using scoredSorted_mset[of plat clock cs] by (metis set_mset_mset)
  from scoreCandidates_bounds[OF this] show ?thesis by blast
qed

lemma ranked_origin:
  assumes "r \<in> set (rankHeadlineCandidates plat clock cs)"
  shows "\<exists>e sf tf c i t0 t1. scoreCandidate plat clock sf tf c i t0 = (e, t1) \<and> ranking r = ranking e"
proof -
  from assms obtain e where e: "e \<in> set (scoredSorted plat clock cs)"
    and r: "r = RankedHeadlineCandidate.truncate e"
    by (auto simp: rankHeadlineCandidates_def split: if_splits)
  from r have "ranking r = ranking e" by (simp add: RankedHeadlineCandidate.truncate_def)
  with scoredSorted_origin[OF e] show ?thesis by blast
qed

lemma corroborated_score:
  "map (\<lambda>r. score (ranking r))
     (rankHeadlineCandidates refPlatform atPublication
        (feedAll refPlatform defaultOptions [] (wireStory # replicate 7 wireCopy)))
   = [161 / 160]"
  by code_simp

text \<open>
  Claim C10. Each of the four components of a ranked cluster lies between 0 and 1, the
  total score is their sum with the weights 0.45, 0.20, 0.20 and 0.25 and lies between 0
  and 1.1, and it can exceed 1: a story published at the instant of ranking and repeated
  by seven articles of a second source scores 161/160.
\<close>

theorem score_bounds:
  "(\<forall>r \<in> set (rankHeadlineCandidates plat clock candidates).
      0 \<le> recency (components (ranking r)) \<and> recency (components (ranking r)) \<le> 1
      \<and> 0 \<le> sourceDiversity (components (ranking r)) \<and> sourceDiversity (components (ranking r)) \<le> 1
      \<and> 0 \<le> topicCoverage (components (ranking r)) \<and> topicCoverage (components (ranking r)) \<le> 1
      \<and> 0 \<le> clusterSupport (components (ranking r)) \<and> clusterSupport (components (ranking r)) \<le> 1
      \<and> score (ranking r) =
          recency (components (ranking r)) * (45 / 100)
          + sourceDiversity (components (ranking r)) * (20 / 100)
          + topicCoverage (components (ranking r)) * (20 / 100)
          + clusterSupport (components (ranking r)) * (25 / 100)
      \<and> 0 \<le> score (ranking r) \<and> score (ranking r) \<le> 11 / 10)
   \<and> (\<exists>r \<in> set (rankHeadlineCandidates refPlatform atPublication
                    (feedAll refPlatform defaultOptions [] (wireStory # replicate 7 wireCopy))).
        1 < score (ranking r))"
proof (rule conjI)
  show "\<forall>r \<in> set (rankHeadlineCandidates plat clock candidates).
      0 \<le> recency (components (ranking r)) \<and> recency (components (ranking r)) \<le> 1
      \<and> 0 \<le> sourceDiversity (components (ranking r)) \<and> sourceDiversity (components (ranking r)) \<le> 1
      \<and> 0 \<le> topicCoverage (components (ranking r)) \<and> topicCoverage (components (ranking r)) \<le> 1
      \<and> 0 \<le> clusterSupport (components (ranking r)) \<and> clusterSupport (components (ranking r)) \<le> 1
      \<and> score (ranking r) =
          recency (components (ranking r)) * (45 / 100)
          + sourceDiversity (components (ranking r)) * (20 / 100)
          + topicCoverage (components (ranking r)) * (20 / 100)
          + clusterSupport (components (ranking r)) * (25 / 100)
      \<and> 0 \<le> score (ranking r) \<and> score (ranking r) \<le> 11 / 10"
  proof (rule ballI)
    fix r assume "r \<in> set (rankHeadlineCandidates plat clock candidates)"
    from ranked_origin[OF this] obtain e sf tf c i t0 t1
      where e: "scoreCandidate plat clock sf tf c i t0 = (e, t1)" and r: "ranking r = ranking e"
      by blast
    from scoreCandidate_bounds[OF e] show
      "0 \<le> recency (components (ranking r)) \<and> recency (components (ranking r)) \<le> 1
        \<and> 0 \<le> sourceDiversity (components (ranking r)) \<and> sourceDiversity (components (ranking r)) \<le> 1
        \<and> 0 \<le> topicCoverage (components (ranking r)) \<and> topicCoverage (components (ranking r)) \<le> 1
        \<and> 0 \<le> clusterSupport (components (ranking r)) \<and> clusterSupport (components (ranking r)) \<le> 1
        \<and> score (ranking r) =
            recency (components (ranking r)) * (45 / 100)
            + sourceDiversity (components (ranking r)) * (20 / 100)
            + topicCoverage (components (ranking r)) * (20 / 100)
            + clusterSupport (components (ranking r)) * (25 / 100)
        \<and> 0 \<le> score (ranking r) \<and> score (ranking r) \<le> 11 / 10"
      unfolding r by simp
  qed
next
  let ?ranked = "rankHeadlineCandidates refPlatform atPublication
                   (feedAll refPlatform defaultOptions [] (wireStory # replicate 7 wireCopy))"
  from corroborated_score obtain r where "?ranked = [r]" and "score (ranking r) = 161 / 160"
    by (auto simp: map_eq_Cons_conv)
  then show "\<exists>r \<in> set ?ranked. 1 < score (ranking r)" by simp
qed

theorem score_bounds_witness:
  "\<exists>r \<in> set (rankHeadlineCandidates refPlatform atPublication
                 (feedAll refPlatform defaultOptions [] (wireStory # replicate 7 wireCopy))).
     1 < score (ranking r) \<and> score (ranking r) \<le> 11 / 10"
  using score_bounds[of refPlatform atPublication
          "feedAll refPlatform defaultOptions [] (wireStory # replicate 7 wireCopy)"]
  by blast

lemma ranksBefore_score: "ranksBefore a b \<Longrightarrow> score (ranking b) \<le> score (ranking a)"
  by (auto simp: ranksBefore_def)

lemma truncate_fields:
  "candidate (RankedHeadlineCandidate.truncate e) = candidate e
   \<and> ranking (RankedHeadlineCandidate.truncate e) = ranking e"
  by (simp add: RankedHeadlineCandidate.truncate_def)

lemma rankHeadlineCandidates_map:
  "rankHeadlineCandidates plat clock cs =
     map RankedHeadlineCandidate.truncate (scoredSorted plat clock cs)"
proof (cases cs)
  case Nil
  then show ?thesis
    by (simp add: rankHeadlineCandidates_def scoredSorted_def sortWith_def split: prod.splits)
next
  case (Cons c rest)
  then show ?thesis by (simp add: rankHeadlineCandidates_def)
qed

lemma ranked_sorted:
  "sorted_wrt (\<lambda>x y. score (ranking y) \<le> score (ranking x)) (rankHeadlineCandidates plat clock cs)"
proof -
  have "sorted_wrt (\<lambda>a b. score (ranking b) \<le> score (ranking a)) (scoredSorted plat clock cs)"
    by (rule sorted_wrt_mono_rel[OF _ scoredSorted_sorted]) (simp add: ranksBefore_score)
  then show ?thesis
    by (simp only: rankHeadlineCandidates_map sorted_wrt_map truncate_fields)
qed

lemma ranked_candidates:
  "mset (map candidate (rankHeadlineCandidates plat clock cs)) = mset cs"
proof -
  let ?sc = "scoreCandidates plat clock (fst (countFrequencies cs)) (snd (countFrequencies cs)) 0 0 cs"
  have sc: "map candidate ?sc = cs"
    by (rule nth_equalityI) (simp_all add: scoreCandidates_length scoreCandidates_nth)
  have "map candidate (rankHeadlineCandidates plat clock cs)
          = map candidate (scoredSorted plat clock cs)"
    by (simp only: rankHeadlineCandidates_map map_map o_def truncate_fields)
  then have "mset (map candidate (rankHeadlineCandidates plat clock cs))
          = image_mset candidate (mset (scoredSorted plat clock cs))"
    by (simp only: mset_map)
  also have "\<dots> = image_mset candidate (mset ?sc)"
    by (simp only: scoredSorted_mset)
  also have "\<dots> = mset (map candidate ?sc)" by (simp only: mset_map)
  finally show ?thesis by (simp only: sc)
qed

lemma buildHeadlineResponses_map: "buildHeadlineResponses xs = map buildHeadlineResponse xs"
  by (simp add: buildHeadlineResponses_def)

lemma entryScore_build: "entryScore (buildHeadlineResponse r) = score (ranking r)"
  by (simp add: entryScore_def buildHeadlineResponse_def)

text \<open>
  Claim C3. The returned entries are at most \<open>limit\<close> many and are sorted by descending
  total score; they are the first \<open>limit\<close> entries of the responses built from the ranking
  of all aggregated clusters, which is itself sorted and holds every cluster once.
\<close>

theorem truncation_after_ranking:
  "length (headlineEntries plat clock limit aggregated) \<le> limit
   \<and> sorted_wrt (\<lambda>x y. entryScore y \<le> entryScore x) (headlineEntries plat clock limit aggregated)
   \<and> headlineEntries plat clock limit aggregated
       = take limit (buildHeadlineResponses (rankHeadlineCandidates plat clock aggregated))
   \<and> sorted_wrt (\<lambda>x y. score (ranking y) \<le> score (ranking x))
       (rankHeadlineCandidates plat clock aggregated)
   \<and> mset (map candidate (rankHeadlineCandidates plat clock aggregated)) = mset aggregated"
proof -
  let ?ranked = "rankHeadlineCandidates plat clock aggregated"
  have e: "headlineEntries plat clock limit aggregated = map buildHeadlineResponse (take limit ?ranked)"
    by (simp add: headlineEntries_def Let_def buildHeadlineResponses_map)
  have "sorted_wrt (\<lambda>x y. score (ranking y) \<le> score (ranking x)) (take limit ?ranked)"
    using ranked_sorted[of plat clock aggregated] by (rule sorted_wrt_take)
  then have "sorted_wrt (\<lambda>x y. entryScore y \<le> entryScore x) (map buildHeadlineResponse (take limit ?ranked))"
    by (simp add: sorted_wrt_map entryScore_build)
  then show ?thesis
    using ranked_sorted[of plat clock aggregated] ranked_candidates[of plat clock aggregated]
    by (simp add: e buildHeadlineResponses_map take_map)
qed

lemma three_entries:
  "map (\<lambda>e. (title e, entryScore e))
     (headlineEntries refPlatform (hoursLater 300) 2
        (feedAll refPlatform defaultOptions [] [marsNoUrl, datedStory, youngerStory]))
   = [(''Election results announced'', 2 / 5), (''Other thing entirely'', 2 / 5)]"
  by code_simp

theorem truncation_after_ranking_witness:
  "length (headlineEntries refPlatform (hoursLater 300) 2
             (feedAll refPlatform defaultOptions [] [marsNoUrl, datedStory, youngerStory])) \<le> 2
   \<and> map title (take 2 (buildHeadlineResponses (rankHeadlineCandidates refPlatform (hoursLater 300)
             (feedAll refPlatform defaultOptions [] [marsNoUrl, datedStory, youngerStory]))))
       = [''Election results announced'', ''Other thing entirely'']"
proof -
  let ?cs = "feedAll refPlatform defaultOptions [] [marsNoUrl, datedStory, youngerStory]"
  have "map title (headlineEntries refPlatform (hoursLater 300) 2 ?cs)
          = map fst (map (\<lambda>e. (title e, entryScore e))
                       (headlineEntries refPlatform (hoursLater 300) 2 ?cs))"
    by (simp add: comp_def)
  then have "map title (headlineEntries refPlatform (hoursLater 300) 2 ?cs)
          = [''Election results announced'', ''Other thing entirely'']"
    by (simp only: three_entries) simp
  then show ?thesis
    using truncation_after_ranking[of refPlatform "hoursLater 300" 2 ?cs] by simp
qed





lemma computeRecencyScore_clock:
  "clock1 t = clock2 t \<Longrightarrow>
     computeRecencyScore plat clock1 p t = computeRecencyScore plat clock2 p t"
  by (simp add: computeRecencyScore_def Let_def split: option.splits)

lemma computeRecencyScore_tick:
  "snd (computeRecencyScore plat clock p t) = t \<or> snd (computeRecencyScore plat clock p t) = Suc t"
  by (simp add: computeRecencyScore_def Let_def split: option.splits)

lemma scoreCandidate_clock:
  "clock1 t = clock2 t \<Longrightarrow>
     scoreCandidate plat clock1 sf tf c idx t = scoreCandidate plat clock2 sf tf c idx t"
  using computeRecencyScore_clock[of clock1 t clock2 plat "publishedAt (data c)"]
  by (simp add: scoreCandidate_def)

lemma scoreCandidate_tick:
  "snd (scoreCandidate plat clock sf tf c idx t) = snd (computeRecencyScore plat clock (publishedAt (data c)) t)"
  by (simp add: scoreCandidate_def Let_def split: prod.splits)

lemma scoreCandidates_clock:
  assumes "\<forall>k. t \<le> k \<and> k < t + length cs \<longrightarrow> clock1 k = clock2 k"
  shows "scoreCandidates plat clock1 sf tf idx t cs = scoreCandidates plat clock2 sf tf idx t cs"
  using assms
proof (induction cs arbitrary: idx t)
  case Nil
  then show ?case by simp
next
  case (Cons c cs)
  from Cons.prems have here: "clock1 t = clock2 t" by simp
  obtain e t' where e: "scoreCandidate plat clock1 sf tf c idx t = (e, t')" by fastforce
  then have e2: "scoreCandidate plat clock2 sf tf c idx t = (e, t')"
    using scoreCandidate_clock[of clock1 t clock2 plat sf tf c idx] here by simp
  have "t' = t \<or> t' = Suc t"
    using computeRecencyScore_tick[of plat clock1 "publishedAt (data c)" t]
      scoreCandidate_tick[of plat clock1 sf tf c idx t] e by simp
  then have "\<forall>k. t' \<le> k \<and> k < t' + length cs \<longrightarrow> clock1 k = clock2 k"
    using Cons.prems by auto
  from Cons.IH[OF this] e e2 show ?case by simp
qed

lemma rankHeadlineCandidates_clock:
  assumes "\<forall>k < length cs. clock1 k = clock2 k"
  shows "rankHeadlineCandidates plat clock1 cs = rankHeadlineCandidates plat clock2 cs"
  using scoreCandidates_clock[of 0 cs clock1 clock2] assms
  by (simp add: rankHeadlineCandidates_def scoredSorted_def split: prod.splits)

text \<open>
  Claim C9, as the code has it. Two runs on the same records and options, in the same
  arrival order, produce the same output whenever the clock readings they take agree; the
  ranker takes at most one reading for each cluster.
\<close>

theorem same_clock_same_output:
  assumes "\<forall>k < length (feedAll plat options [] records). clock1 k = clock2 k"
  shows "rankAndDeduplicate plat clock1 records options limit
           = rankAndDeduplicate plat clock2 records options limit"
  using rankHeadlineCandidates_clock[OF assms]
  by (simp add: rankAndDeduplicate_def headlineEntries_def)

lemma two_clusters_length:
  "length (feedAll refPlatform defaultOptions [] [datedStory, marsNoUrl, wireCopy]) = 2"
  by code_simp

theorem same_clock_same_output_witness:
  "rankAndDeduplicate refPlatform (hoursLater 1) [datedStory, marsNoUrl, wireCopy] defaultOptions 5
     = rankAndDeduplicate refPlatform (\<lambda>k. if k < 2 then 1704067200000 + 3600000 else 0)
         [datedStory, marsNoUrl, wireCopy] defaultOptions 5"
  using same_clock_same_output[of refPlatform defaultOptions "[datedStory, marsNoUrl, wireCopy]"
          "hoursLater 1" "\<lambda>k. if k < 2 then 1704067200000 + 3600000 else 0" 5]
    two_clusters_length
  by (simp add: hoursLater_def)

text \<open>
  Claim C9 as it is stated, for the records and the options alone, fails: the score of a
  dated story depends on the clock reading, and so does the order. One hour after
  publication the dated story leads; a hundred hours after, it comes second.
\<close>

lemma run_one_hour:
  "map (\<lambda>e. (title e, entryScore e))
     (rankAndDeduplicate refPlatform (hoursLater 1) [datedStory, marsNoUrl, wireCopy]
        defaultOptions 5)
   = [(''Other thing entirely'', 27 / 32), (''Mars rover finds water'', 503 / 1120)]"
  by code_simp

lemma run_hundred_hours:
  "map (\<lambda>e. (title e, entryScore e))
     (rankAndDeduplicate refPlatform (hoursLater 100) [datedStory, marsNoUrl, wireCopy]
        defaultOptions 5)
   = [(''Mars rover finds water'', 503 / 1120), (''Other thing entirely'', 2 / 5)]"
  by code_simp

theorem two_runs_counterexample:
  "rankAndDeduplicate refPlatform (hoursLater 1) [datedStory, marsNoUrl, wireCopy] defaultOptions 5
     \<noteq> rankAndDeduplicate refPlatform (hoursLater 100) [datedStory, marsNoUrl, wireCopy]
           defaultOptions 5"
  using run_one_hour run_hundred_hours by auto

end
